theory Spec2Isabelle
  imports Main
begin

section \<open>Strings and numbers of the runtime\<close>

text \<open>
  A JavaScript string is a sequence of UTF-16 code units. A code unit is modelled as a
  natural number (below 65536 for every string the runtime can build); \<open>lit\<close> turns an
  ASCII literal of the source into such a sequence.
\<close>

type_synonym jsstring = "nat list"

definition lit :: "string \<Rightarrow> jsstring" where
  "lit s = map of_char s"

text \<open>
  A JavaScript number is modelled as \<open>NaN\<close> or an integer: the numbers this program
  computes with (a parsed TTL, depth and breadth, sizes and counts) are integers, and
  \<open>NaN\<close> is the one non-integer value the code can produce from them.
\<close>

datatype jsnumber = NaN | Num int

text \<open>\<open>Math.min\<close> and \<open>Math.max\<close>: the result is \<open>NaN\<close> as soon as one argument is.\<close>

fun Math_min :: "jsnumber \<Rightarrow> jsnumber \<Rightarrow> jsnumber" where
  "Math_min (Num a) (Num b) = Num (min a b)"
| "Math_min _ _ = NaN"

fun Math_max :: "jsnumber \<Rightarrow> jsnumber \<Rightarrow> jsnumber" where
  "Math_max (Num a) (Num b) = Num (max a b)"
| "Math_max _ _ = NaN"

text \<open>
  \<open>parseInt(s, 10)\<close>: leading white space is skipped, one sign is read, then the longest
  run of decimal digits; with no digit the result is \<open>NaN\<close>.
\<close>

definition isWhiteSpace :: "nat \<Rightarrow> bool" where
  "isWhiteSpace c \<longleftrightarrow>
     c \<in> {9, 10, 11, 12, 13, 32, 160, 5760, 8232, 8233, 8239, 8287, 12288, 65279}
     \<or> (8192 \<le> c \<and> c \<le> 8202)"

definition isDigit :: "nat \<Rightarrow> bool" where
  "isDigit c \<longleftrightarrow> 48 \<le> c \<and> c \<le> 57"

fun digitsValue :: "int \<Rightarrow> jsstring \<Rightarrow> int" where
  "digitsValue acc [] = acc"
| "digitsValue acc (c # cs) = digitsValue (acc * 10 + (int c - 48)) cs"

definition parseInt :: "jsstring \<Rightarrow> jsnumber" where
  "parseInt s =
     (let t = dropWhile isWhiteSpace s;
          sign = (case t of c # _ \<Rightarrow> if c = 45 then - 1 else 1 | [] \<Rightarrow> (1::int));
          u = (case t of c # cs \<Rightarrow> if c = 45 \<or> c = 43 then cs else t | [] \<Rightarrow> t);
          z = takeWhile isDigit u
      in if z = [] then NaN else Num (sign * digitsValue 0 z))"


text \<open>
  Number to string for an integer (template literals and \<open>JSON.stringify\<close>): the
  decimal digits, with a minus sign for a negative number.
\<close>

fun natToString :: "nat \<Rightarrow> jsstring" where
  "natToString n = (if n < 10 then [48 + n] else natToString (n div 10) @ [48 + n mod 10])"

declare natToString.simps [simp del]

definition numberToString :: "int \<Rightarrow> jsstring" where
  "numberToString i = (if i < 0 then 45 # natToString (nat (- i)) else natToString (nat i))"

text \<open>
  \<open>Buffer.byteLength(s, 'utf8')\<close>: one byte below U+0080, two below U+0800, four for a
  surrogate pair, three for any other unit (a lone surrogate is encoded as U+FFFD).
\<close>

definition isLeadSurrogate :: "nat \<Rightarrow> bool" where
  "isLeadSurrogate c \<longleftrightarrow> 55296 \<le> c \<and> c \<le> 56319"

definition isTrailSurrogate :: "nat \<Rightarrow> bool" where
  "isTrailSurrogate c \<longleftrightarrow> 56320 \<le> c \<and> c \<le> 57343"

fun byteLength :: "jsstring \<Rightarrow> nat" where
  "byteLength [] = 0"
| "byteLength [c] = (if c < 128 then 1 else if c < 2048 then 2 else 3)"
| "byteLength (c # d # cs) =
     (if c < 128 then 1 + byteLength (d # cs)
      else if c < 2048 then 2 + byteLength (d # cs)
      else if isLeadSurrogate c \<and> isTrailSurrogate d then 4 + byteLength cs
      else 3 + byteLength (d # cs))"

text \<open>
  \<open>s.replace(/[^a-zA-Z0-9]/g, '_')\<close>, \<open>s.replace(/[:.]/g, '-')\<close> and
  \<open>toLowerCase\<close>. The last is only applied to the result of the first, which holds
  ASCII letters, digits and underscores, so the ASCII case mapping is all of it.
\<close>

definition isAlnum :: "nat \<Rightarrow> bool" where
  "isAlnum c \<longleftrightarrow> (97 \<le> c \<and> c \<le> 122) \<or> (65 \<le> c \<and> c \<le> 90) \<or> (48 \<le> c \<and> c \<le> 57)"

definition replaceNonAlnum :: "jsstring \<Rightarrow> jsstring" where
  "replaceNonAlnum s = map (\<lambda>c. if isAlnum c then c else 95) s"

definition replaceColonDot :: "jsstring \<Rightarrow> jsstring" where
  "replaceColonDot s = map (\<lambda>c. if c = 58 \<or> c = 46 then 45 else c) s"

definition toLowerCase :: "jsstring \<Rightarrow> jsstring" where
  "toLowerCase s = map (\<lambda>c. if 65 \<le> c \<and> c \<le> 90 then c + 32 else c) s"

text \<open>\<open>s.replace(pat, rep)\<close> with a string pattern: the first occurrence only.\<close>

fun replaceFirst :: "jsstring \<Rightarrow> jsstring \<Rightarrow> jsstring \<Rightarrow> jsstring" where
  "replaceFirst pat rep [] = (if pat = [] then rep else [])"
| "replaceFirst pat rep (c # cs) =
     (if take (length pat) (c # cs) = pat then rep @ drop (length pat) (c # cs)
      else c # replaceFirst pat rep cs)"

subsection \<open>JSON text of a string\<close>

text \<open>
  \<open>JSON.stringify\<close> of a string (QuoteJSONString): the quotation mark, the backslash
  and the control characters are escaped, a surrogate that is not part of a pair is
  written as \<open>\uXXXX\<close>, every other code unit stands for itself.
\<close>

definition hexDigit :: "nat \<Rightarrow> nat" where
  "hexDigit d = (if d < 10 then 48 + d else 87 + d)"

definition unicodeEscape :: "nat \<Rightarrow> jsstring" where
  "unicodeEscape c =
     [92, 117, hexDigit (c div 4096 mod 16), hexDigit (c div 256 mod 16),
      hexDigit (c div 16 mod 16), hexDigit (c mod 16)]"

definition quoteUnit :: "nat \<Rightarrow> jsstring" where
  "quoteUnit c =
     (if c = 8 then [92, 98]
      else if c = 9 then [92, 116]
      else if c = 10 then [92, 110]
      else if c = 12 then [92, 102]
      else if c = 13 then [92, 114]
      else if c = 34 then [92, 34]
      else if c = 92 then [92, 92]
      else if c < 32 \<or> isLeadSurrogate c \<or> isTrailSurrogate c then unicodeEscape c
      else [c])"

fun quoteUnits :: "jsstring \<Rightarrow> jsstring" where
  "quoteUnits [] = []"
| "quoteUnits [c] = quoteUnit c"
| "quoteUnits (c # d # cs) =
     (if isLeadSurrogate c \<and> isTrailSurrogate d then c # d # quoteUnits cs
      else quoteUnit c @ quoteUnits (d # cs))"

definition QuoteJSONString :: "jsstring \<Rightarrow> jsstring" where
  "QuoteJSONString s = 34 # quoteUnits s @ [34]"

fun joinComma :: "jsstring list \<Rightarrow> jsstring" where
  "joinComma [] = []"
| "joinComma [x] = x"
| "joinComma (x # y # ys) = x @ 44 # joinComma (y # ys)"

subsection \<open>Thrown values\<close>

text \<open>
  What a \<open>throw\<close> carries: an \<open>Error\<close> with its message, or any other value, kept as
  the text \<open>String(value)\<close> gives for it.
\<close>

datatype error = Error jsstring | Thrown jsstring

definition errorMessage :: "error \<Rightarrow> jsstring" where
  "errorMessage e = (case e of Error m \<Rightarrow> m | Thrown t \<Rightarrow> t)"

section \<open>The tool's input\<close>

text \<open>
  A tool call carries a JSON object. \<open>inputSchema\<close> is the schema the tool is
  registered with: it reads the properties by name, whatever their order in the object,
  and hands the handler the validated arguments; a \<open>None\<close> is a rejected input, for
  which the handler is not run. Numbers are integers here: a fractional \<open>depth\<close> or
  \<open>breadth\<close> is outside the model.
\<close>

datatype jsvalue =
    JNull
  | JBool bool
  | JNum int
  | JStr jsstring
  | JArr "jsvalue list"
  | JObj "(jsstring \<times> jsvalue) list"

record Flags =
  grounding :: "bool option"
  urlContext :: "bool option"

record ToolArgs =
  query :: jsstring
  depth :: "int option"
  breadth :: "int option"
  existingLearnings :: "jsstring list option"
  goal :: "jsstring option"
  flags :: "Flags option"

definition z_string :: "jsvalue \<Rightarrow> jsstring option" where
  "z_string v = (case v of JStr s \<Rightarrow> Some s | _ \<Rightarrow> None)"

definition z_string_min1 :: "jsvalue \<Rightarrow> jsstring option" where
  "z_string_min1 v = (case v of JStr s \<Rightarrow> if 1 \<le> length s then Some s else None | _ \<Rightarrow> None)"

definition z_number_1_5 :: "jsvalue \<Rightarrow> int option" where
  "z_number_1_5 v = (case v of JNum n \<Rightarrow> if 1 \<le> n \<and> n \<le> 5 then Some n else None | _ \<Rightarrow> None)"

definition z_boolean :: "jsvalue \<Rightarrow> bool option" where
  "z_boolean v = (case v of JBool b \<Rightarrow> Some b | _ \<Rightarrow> None)"

definition z_array_string :: "jsvalue \<Rightarrow> jsstring list option" where
  "z_array_string v = (case v of JArr xs \<Rightarrow> those (map z_string xs) | _ \<Rightarrow> None)"

text \<open>\<open>.optional()\<close>: an absent property is accepted, a present one must validate.\<close>

definition z_optional :: "('a \<Rightarrow> 'b option) \<Rightarrow> 'a option \<Rightarrow> 'b option option" where
  "z_optional p v =
     (case v of
        None \<Rightarrow> Some None
      | Some x \<Rightarrow> (case p x of None \<Rightarrow> None | Some y \<Rightarrow> Some (Some y)))"

definition z_flags :: "jsvalue \<Rightarrow> Flags option" where
  "z_flags v =
     (case v of
        JObj ps \<Rightarrow>
          (case z_optional z_boolean (map_of ps (lit ''grounding'')) of
             None \<Rightarrow> None
           | Some g \<Rightarrow>
               (case z_optional z_boolean (map_of ps (lit ''urlContext'')) of
                  None \<Rightarrow> None
                | Some u \<Rightarrow> Some \<lparr> grounding = g, urlContext = u \<rparr>))
      | _ \<Rightarrow> None)"

definition inputSchema :: "(jsstring \<times> jsvalue) list \<Rightarrow> ToolArgs option" where
  "inputSchema ps =
     (case map_of ps (lit ''query'') of
        None \<Rightarrow> None
      | Some qv \<Rightarrow>
     (case z_string_min1 qv of
        None \<Rightarrow> None
      | Some q \<Rightarrow>
     (case z_optional z_number_1_5 (map_of ps (lit ''depth'')) of
        None \<Rightarrow> None
      | Some d \<Rightarrow>
     (case z_optional z_number_1_5 (map_of ps (lit ''breadth'')) of
        None \<Rightarrow> None
      | Some b \<Rightarrow>
     (case z_optional z_array_string (map_of ps (lit ''existingLearnings'')) of
        None \<Rightarrow> None
      | Some ls \<Rightarrow>
     (case z_optional z_string (map_of ps (lit ''goal'')) of
        None \<Rightarrow> None
      | Some g \<Rightarrow>
     (case z_optional z_flags (map_of ps (lit ''flags'')) of
        None \<Rightarrow> None
      | Some f \<Rightarrow>
          Some \<lparr> query = q, depth = d, breadth = b, existingLearnings = ls,
                 goal = g, flags = f \<rparr>)))))))"

section \<open>Cache key\<close>

text \<open>
  The handler hashes the object \<open>{ query, depth, breadth, existingLearnings }\<close>, built
  in this order from its destructured arguments, \<open>existingLearnings\<close> defaulting to the
  empty array. \<open>JSON.stringify\<close> leaves out a property whose value is \<open>undefined\<close>.
\<close>

type_synonym KeyObject = "jsstring \<times> int option \<times> int option \<times> jsstring list"

definition numberProperty :: "jsstring \<Rightarrow> int option \<Rightarrow> jsstring" where
  "numberProperty name v =
     (case v of None \<Rightarrow> [] | Some n \<Rightarrow> 44 # QuoteJSONString name @ 58 # numberToString n)"

definition JSON_stringify :: "KeyObject \<Rightarrow> error + jsstring" where
  "JSON_stringify obj =
     (case obj of (q, d, b, ls) \<Rightarrow>
        Inr (123 # QuoteJSONString (lit ''query'') @ 58 # QuoteJSONString q
             @ numberProperty (lit ''depth'') d
             @ numberProperty (lit ''breadth'') b
             @ 44 # QuoteJSONString (lit ''existingLearnings'') @ 58
               # 91 # joinComma (map QuoteJSONString ls) @ [93, 125]))"

text \<open>
  \<open>hashKey\<close>: the hexadecimal SHA-256 digest of the JSON text, and \<open>String(obj)\<close>
  should the serialisation throw. The digest, Node's
  \<open>createHash('sha256').update(s).digest('hex')\<close>, is a parameter of the model.
\<close>

definition hashKey :: "(jsstring \<Rightarrow> jsstring) \<Rightarrow> KeyObject \<Rightarrow> jsstring" where
  "hashKey sha256hex obj =
     (case JSON_stringify obj of
        Inr s \<Rightarrow> sha256hex s
      | Inl _ \<Rightarrow> lit ''[object Object]'')"

definition keyObject :: "ToolArgs \<Rightarrow> KeyObject" where
  "keyObject args =
     (query args, depth args, breadth args,
      (case existingLearnings args of None \<Rightarrow> [] | Some ls \<Rightarrow> ls))"

definition cacheKey :: "(jsstring \<Rightarrow> jsstring) \<Rightarrow> ToolArgs \<Rightarrow> jsstring" where
  "cacheKey sha256hex args = hashKey sha256hex (keyObject args)"

section \<open>Environment and cache configuration\<close>

text \<open>The variables of \<open>process.env\<close> the server reads; \<open>None\<close> is an unset variable.\<close>

record Env =
  GCS_BUCKET_NAME :: "jsstring option"
  PROVIDER_CACHE_TTL_MS :: "jsstring option"
  MCP_HTTP_MODE :: "jsstring option"
  MCP_API_KEY :: "jsstring option"
  PORT :: "jsstring option"

text \<open>\<open>process.env.X || d\<close>: the default replaces an unset and an empty variable.\<close>

definition orDefault :: "jsstring option \<Rightarrow> jsstring \<Rightarrow> jsstring" where
  "orDefault v d = (case v of None \<Rightarrow> d | Some s \<Rightarrow> if s = [] then d else s)"

definition MCP_CACHE_TTL_MS :: "Env \<Rightarrow> jsnumber" where
  "MCP_CACHE_TTL_MS env =
     Math_max (Num 1000)
       (Math_min (Num 86400000)
          (parseInt (orDefault (PROVIDER_CACHE_TTL_MS env) (lit ''600000''))))"

definition env0 :: Env where
  "env0 = \<lparr> GCS_BUCKET_NAME = None, PROVIDER_CACHE_TTL_MS = None, MCP_HTTP_MODE = None,
            MCP_API_KEY = None, PORT = None \<rparr>"

section \<open>Results\<close>

record ContentBlock =
  type' :: jsstring
  text' :: jsstring

record Stats =
  totalLearnings :: nat
  totalSources :: nat

record Metadata =
  learnings :: "jsstring list"
  visitedUrls :: "jsstring list"
  stats :: Stats
  reportUrl :: "jsstring option"
  reportSizeKB :: "nat option"

record MCPResearchResult =
  content :: "ContentBlock list"
  metadata :: Metadata

section \<open>Result cache\<close>

text \<open>
  Modelled from the spec: the cache is the \<open>LRUCache\<close> of the \<open>lru-cache\<close> package,
  which is not part of the repository's sources. The spec's contract (section 4.2): a
  store bounded by a maximum entry count and a time to live; capacity eviction drops the
  least recently used entry; an entry whose age exceeds the TTL is dropped lazily, on
  access, and is never returned.

  The entries are kept most recently used first, each with its value and the clock
  reading of its insertion. A comparison with \<open>NaN\<close> is false, so with a \<open>NaN\<close> TTL no
  entry is ever stale.
\<close>

type_synonym 'v lru = "(jsstring \<times> 'v \<times> nat) list"

definition isStale :: "jsnumber \<Rightarrow> nat \<Rightarrow> nat \<Rightarrow> bool" where
  "isStale ttl now start = (case ttl of NaN \<Rightarrow> False | Num t \<Rightarrow> int now - int start > t)"

definition lru_delete :: "jsstring \<Rightarrow> 'v lru \<Rightarrow> 'v lru" where
  "lru_delete k c = filter (\<lambda>e. fst e \<noteq> k) c"

definition lru_get :: "jsnumber \<Rightarrow> nat \<Rightarrow> jsstring \<Rightarrow> 'v lru \<Rightarrow> 'v option \<times> 'v lru" where
  "lru_get ttl now k c =
     (case map_of c k of
        None \<Rightarrow> (None, c)
      | Some (v, start) \<Rightarrow>
          if isStale ttl now start then (None, lru_delete k c)
          else (Some v, (k, v, start) # lru_delete k c))"

definition lru_set :: "nat \<Rightarrow> nat \<Rightarrow> jsstring \<Rightarrow> 'v \<Rightarrow> 'v lru \<Rightarrow> 'v lru" where
  "lru_set max_entries now k v c =
     (case map_of c k of
        Some _ \<Rightarrow> (k, v, now) # lru_delete k c
      | None \<Rightarrow> (k, v, now) # (if max_entries \<le> length c then butlast c else c))"

definition cacheMax :: nat where
  "cacheMax = 50"

section \<open>The research pipeline and the storage service\<close>

text \<open>
  The pipeline (\<open>research\<close>), the file system and the storage bucket are outside the
  repository. For one tool call, \<open>World\<close> holds what they answer and what the clock
  reads: \<open>Inl\<close> is a call that throws. \<open>now_get\<close> is the clock at the cache lookup,
  \<open>now_set\<close> the clock at the cache write, \<open>toISOString\<close> the text of the date at the
  upload.
\<close>

record ResearchOptions =
  query :: jsstring
  depth :: int
  breadth :: int
  existingLearnings :: "jsstring list"

record ResearchResult =
  learnings :: "jsstring list"
  visitedUrls :: "jsstring list"
  reportPath :: "jsstring option"
  content :: "jsstring option"

record World =
  now_get :: nat
  now_set :: nat
  research :: "ResearchOptions \<Rightarrow> error + ResearchResult"
  readFileSync :: "jsstring \<Rightarrow> error + jsstring"
  toISOString :: jsstring
  file_save :: "jsstring \<Rightarrow> jsstring \<Rightarrow> jsstring \<Rightarrow> jsstring \<Rightarrow> error + unit"
  getSignedUrl :: "jsstring \<Rightarrow> jsstring \<Rightarrow> error + jsstring"

text \<open>
  The state of the process across tool calls: the cache, and a log of the pipeline
  invocations and of the uploads attempted (report content and query).
\<close>

record ServerState =
  cache :: "MCPResearchResult lru"
  researchCalls :: "ResearchOptions list"
  uploadCalls :: "(jsstring \<times> jsstring) list"

definition GCS_BUCKET :: "Env \<Rightarrow> jsstring" where
  "GCS_BUCKET env =
     orDefault (GCS_BUCKET_NAME env) (lit ''deep-research-reports-gen-lang-client-0824947382'')"

definition uploadReportToGCS :: "Env \<Rightarrow> World \<Rightarrow> jsstring \<Rightarrow> jsstring \<Rightarrow> error + jsstring" where
  "uploadReportToGCS env w reportContent q =
     (let timestamp = replaceColonDot (toISOString w);
          sanitizedQuery = replaceNonAlnum (take 50 q);
          filename = lit ''reports/'' @ sanitizedQuery @ lit ''_'' @ timestamp @ lit ''.md''
      in case file_save w (GCS_BUCKET env) filename reportContent q of
           Inl e \<Rightarrow> Inl e
         | Inr _ \<Rightarrow>
             (case getSignedUrl w (GCS_BUCKET env) filename of
                Inl e \<Rightarrow> Inl e
              | Inr signedUrl \<Rightarrow> Inr signedUrl))"

section \<open>The tool handler\<close>

definition isHttpMode :: "Env \<Rightarrow> bool" where
  "isHttpMode env \<longleftrightarrow> MCP_HTTP_MODE env = Some (lit ''true'')"

definition SIZE_THRESHOLD_KB :: nat where
  "SIZE_THRESHOLD_KB = 50"

definition useUrlMode :: "bool \<Rightarrow> nat \<Rightarrow> bool" where
  "useUrlMode httpMode sizeKB \<longleftrightarrow> httpMode \<or> sizeKB > SIZE_THRESHOLD_KB"

text \<open>A value is falsy when it is \<open>undefined\<close> or the empty string.\<close>

definition falsy :: "jsstring option \<Rightarrow> bool" where
  "falsy v \<longleftrightarrow> v = None \<or> v = Some []"

text \<open>
  The report text: the pipeline's \<open>content\<close>; without it the file at \<open>reportPath\<close>, or a
  fixed text when the read throws; and a placeholder when there is still no text.
\<close>

definition reportContentOf :: "World \<Rightarrow> ResearchResult \<Rightarrow> jsstring" where
  "reportContentOf w result =
     (let c0 = content result;
          c1 = (if falsy c0 \<and> \<not> falsy (reportPath result)
                then (case reportPath result of
                        None \<Rightarrow> c0
                      | Some p \<Rightarrow>
                          (case readFileSync w p of
                             Inr t \<Rightarrow> Some t
                           | Inl _ \<Rightarrow> Some (lit ''Error reading report file.'')))
                else c0)
      in case c1 of
           None \<Rightarrow> lit ''# Error: No report content generated.''
         | Some t \<Rightarrow> if t = [] then lit ''# Error: No report content generated.'' else t)"

text \<open>\<open>Math.round(bytes / 1024)\<close>: halves round up.\<close>

definition sizeKB :: "jsstring \<Rightarrow> nat" where
  "sizeKB reportContent = (byteLength reportContent + 512) div 1024"

definition nl :: jsstring where
  "nl = [10]"

definition heading :: jsstring where
  "heading = lit ''## '' @ [240, 376, 353, 8364] @ lit '' RESEARCH COMPLETE''"

definition uploadErrorMarker :: jsstring where
  "uploadErrorMarker = lit ''ERROR: Failed to upload report to cloud storage''"

definition suggestedFilenameOf :: "jsstring \<Rightarrow> jsstring" where
  "suggestedFilenameOf q = toLowerCase (replaceNonAlnum (take 40 q)) @ lit ''_report.md''"

definition sizeNoteOf :: "bool \<Rightarrow> nat \<Rightarrow> jsstring" where
  "sizeNoteOf httpMode kb =
     (if \<not> httpMode
      then nl @ nl @ lit ''> **Note:** Report size ('' @ numberToString (int kb)
           @ lit '' KB) exceeds '' @ numberToString (int SIZE_THRESHOLD_KB)
           @ lit '' KB threshold, using URL mode for reliability.''
      else [])"

definition urlModeText :: "nat \<Rightarrow> jsstring \<Rightarrow> jsstring \<Rightarrow> jsstring \<Rightarrow> jsstring" where
  "urlModeText kb url sizeNote suggestedFilename =
     heading @ nl @ nl
     @ lit ''**Report Size:** '' @ numberToString (int kb) @ lit '' KB'' @ nl
     @ lit ''**Full Report URL:** '' @ url @ sizeNote @ nl @ nl
     @ lit ''---'' @ nl @ nl
     @ lit ''## '' @ [226, 353, 160, 239, 184]
     @ lit '' ACTION REQUIRED: Download and save the full report'' @ nl @ nl
     @ lit ''The complete report ('' @ numberToString (int kb)
     @ lit '' KB) has been uploaded to cloud storage.'' @ nl @ nl
     @ lit ''**You MUST download and save it locally:**'' @ nl @ nl
     @ [96, 96, 96] @ lit ''bash'' @ nl
     @ lit ''curl -L '' @ [39] @ url @ [39] @ lit '' -o '' @ suggestedFilename @ nl
     @ [96, 96, 96] @ nl @ nl
     @ lit ''**Suggested filename:** '' @ [96] @ suggestedFilename @ [96] @ nl @ nl
     @ lit ''---'' @ nl @ nl
     @ lit ''Download the file above to get the complete research output.''"

definition textBlock :: "jsstring \<Rightarrow> ContentBlock" where
  "textBlock t = \<lparr> type' = lit ''text'', text' = t \<rparr>"

definition errorResult :: "error \<Rightarrow> MCPResearchResult" where
  "errorResult e =
     \<lparr> MCPResearchResult.content =
         [textBlock (lit ''Error during deep research: '' @ errorMessage e)],
       metadata =
         \<lparr> Metadata.learnings = [], Metadata.visitedUrls = [],
           stats = \<lparr> totalLearnings = 0, totalSources = 0 \<rparr>,
           reportUrl = None, reportSizeKB = None \<rparr> \<rparr>"

text \<open>
  The handler after the pipeline has returned: the report text and its size, the choice
  of the delivery, the upload (whose failure is caught on the spot and leaves the error
  marker in place of the URL), the result, and the cache write.
\<close>

definition deliver ::
    "Env \<Rightarrow> World \<Rightarrow> jsstring \<Rightarrow> jsstring \<Rightarrow> ResearchResult \<Rightarrow> ServerState
      \<Rightarrow> MCPResearchResult \<times> ServerState" where
  "deliver env w key q result s =
     (let reportContent = reportContentOf w result;
          kb = sizeKB reportContent;
          httpMode = isHttpMode env
      in if useUrlMode httpMode kb
         then
           (let url = (case uploadReportToGCS env w reportContent q of
                         Inr u \<Rightarrow> u
                       | Inl _ \<Rightarrow> uploadErrorMarker);
                finalResult =
                  \<lparr> MCPResearchResult.content =
                      [textBlock (urlModeText kb url (sizeNoteOf httpMode kb)
                                    (suggestedFilenameOf q))],
                    metadata =
                      \<lparr> Metadata.learnings = ResearchResult.learnings result,
                        Metadata.visitedUrls = ResearchResult.visitedUrls result,
                        stats = \<lparr> totalLearnings = length (ResearchResult.learnings result),
                                  totalSources = length (ResearchResult.visitedUrls result) \<rparr>,
                        reportUrl = Some url, reportSizeKB = Some kb \<rparr> \<rparr>
            in (finalResult,
                s\<lparr> uploadCalls := uploadCalls s @ [(reportContent, q)],
                   cache := lru_set cacheMax (now_set w) key finalResult (cache s) \<rparr>))
         else
           (let finalResult =
                  \<lparr> MCPResearchResult.content =
                      [textBlock (heading @ nl @ nl @ reportContent)],
                    metadata =
                      \<lparr> Metadata.learnings = ResearchResult.learnings result,
                        Metadata.visitedUrls = ResearchResult.visitedUrls result,
                        stats = \<lparr> totalLearnings = length (ResearchResult.learnings result),
                                  totalSources = length (ResearchResult.visitedUrls result) \<rparr>,
                        reportUrl = None, reportSizeKB = Some kb \<rparr> \<rparr>
            in (finalResult,
                s\<lparr> cache := lru_set cacheMax (now_set w) key finalResult (cache s) \<rparr>)))"

definition researchOptions :: "ToolArgs \<Rightarrow> ResearchOptions" where
  "researchOptions args =
     \<lparr> ResearchOptions.query = ToolArgs.query args,
       ResearchOptions.depth = (case ToolArgs.depth args of None \<Rightarrow> 2 | Some d \<Rightarrow> d),
       ResearchOptions.breadth = (case ToolArgs.breadth args of None \<Rightarrow> 2 | Some b \<Rightarrow> b),
       ResearchOptions.existingLearnings =
         (case ToolArgs.existingLearnings args of None \<Rightarrow> [] | Some ls \<Rightarrow> ls) \<rparr>"

text \<open>
  The handler of \<open>deepResearch.run\<close>. A cache hit returns the stored result. On a miss
  the pipeline is invoked; inside the \<open>try\<close> block only that invocation can throw (the
  file read and the upload have handlers of their own), and the \<open>catch\<close> turns the
  thrown value into an error result. One call is one step: what other calls do while
  this one awaits is outside the model.
\<close>

definition deepResearch_run ::
    "Env \<Rightarrow> (jsstring \<Rightarrow> jsstring) \<Rightarrow> World \<Rightarrow> ToolArgs \<Rightarrow> ServerState
      \<Rightarrow> MCPResearchResult \<times> ServerState" where
  "deepResearch_run env sha256hex w args s =
     (let key = cacheKey sha256hex args
      in case lru_get (MCP_CACHE_TTL_MS env) (now_get w) key (cache s) of
           (Some cachedResult, c) \<Rightarrow> (cachedResult, s\<lparr> cache := c \<rparr>)
         | (None, c) \<Rightarrow>
             (let opts = researchOptions args;
                  s1 = s\<lparr> cache := c, researchCalls := researchCalls s @ [opts] \<rparr>
              in case research w opts of
                   Inl e \<Rightarrow> (errorResult e, s1)
                 | Inr result \<Rightarrow> deliver env w key (ToolArgs.query args) result s1))"

text \<open>A sequence of tool calls, each with its own answers of the outside world.\<close>

fun runCalls ::
    "Env \<Rightarrow> (jsstring \<Rightarrow> jsstring) \<Rightarrow> (World \<times> ToolArgs) list \<Rightarrow> ServerState \<Rightarrow> ServerState" where
  "runCalls env sha256hex [] s = s"
| "runCalls env sha256hex ((w, args) # calls) s =
     runCalls env sha256hex calls (snd (deepResearch_run env sha256hex w args s))"

definition initialState :: ServerState where
  "initialState = \<lparr> cache = [], researchCalls = [], uploadCalls = [] \<rparr>"

section \<open>The HTTP transport\<close>

text \<open>
  What the Express application of the HTTP mode reads of a request: the method, the
  path (without the query string), the two headers of the key check, the \<open>sessionId\<close>
  query parameter, and what \<open>express.json()\<close>, the first middleware, makes of the body:
  \<open>bodyFault\<close> is the status of the error it raises (400 for malformed JSON), and
  \<open>None\<close> when there is no JSON body or the body parses.
\<close>

record Request =
  method' :: jsstring
  path :: jsstring
  x_api_key :: "jsstring option"
  authorization :: "jsstring option"
  sessionId :: "jsstring option"
  bodyFault :: "nat option"

datatype Body =
    ErrorBody jsstring
  | HealthBody jsstring jsstring jsstring
  | JsonRpcError int jsstring
  | DefaultErrorPage

text \<open>A middleware either answers the request itself or calls \<open>next()\<close>.\<close>

datatype Middleware = Next | Responded nat Body

text \<open>
  \<open>req.headers['x-api-key'] || req.headers['authorization']?.replace('Bearer ', '')\<close>:
  the key header unless it is absent or empty, else the authorization header without
  its first \<open>Bearer \<close>, wherever in the header that stands, else \<open>undefined\<close>.
\<close>

definition providedKeyOf :: "Request \<Rightarrow> jsstring option" where
  "providedKeyOf req =
     (let bearer = map_option (replaceFirst (lit ''Bearer '') []) (authorization req)
      in case x_api_key req of
           None \<Rightarrow> bearer
         | Some k \<Rightarrow> if k = [] then bearer else Some k)"

definition apiKeyAuth :: "Env \<Rightarrow> Request \<Rightarrow> Middleware" where
  "apiKeyAuth env req =
     (case MCP_API_KEY env of
        None \<Rightarrow> Next
      | Some apiKey \<Rightarrow>
          if apiKey = [] then Next
          else if providedKeyOf req \<noteq> Some apiKey
               then Responded 401 (ErrorBody (lit ''Unauthorized''))
               else Next)"

text \<open>
  Express matches a route as its router is set up by default: the path without regard
  to the case of ASCII letters and with an optional trailing slash, and a \<open>HEAD\<close>
  request by the \<open>GET\<close> route of its path.
\<close>

definition pathMatches :: "jsstring \<Rightarrow> jsstring \<Rightarrow> bool" where
  "pathMatches route p \<longleftrightarrow> toLowerCase p = route \<or> toLowerCase p = route @ [47]"

definition methodMatches :: "jsstring \<Rightarrow> jsstring \<Rightarrow> bool" where
  "methodMatches route m \<longleftrightarrow> m = route \<or> (route = lit ''GET'' \<and> m = lit ''HEAD'')"

definition routed :: "jsstring \<Rightarrow> jsstring \<Rightarrow> Request \<Rightarrow> bool" where
  "routed m p req \<longleftrightarrow> methodMatches m (method' req) \<and> pathMatches p (path req)"

text \<open>
  What becomes of a request: an answer of the application's own, the hand-over to a
  fresh protocol server (\<open>POST /mcp\<close>), a new streaming session (\<open>GET /sse\<close>), the
  hand-over of a message to the transport of a session (\<open>POST /messages\<close>), or no
  handler of the application (\<open>NoRoute\<close>, which Express answers itself). A transport
  object is named by a number.
\<close>

datatype Outcome =
    Respond nat Body
  | McpRequest
  | SseOpened jsstring nat
  | PostMessage nat
  | NoRoute

type_synonym Registry = "jsstring \<rightharpoonup> nat"

definition health :: Body where
  "health = HealthBody (lit ''ok'') (lit ''http'') (lit ''1.0.0'')"

definition methodNotAllowed :: Outcome where
  "methodNotAllowed = Respond 405 (JsonRpcError (- 32000) (lit ''Method not allowed''))"

text \<open>
  The body parser, then the routes in the order of their registration. \<open>uuid\<close> is what
  \<open>randomUUID()\<close> returns and \<open>transport\<close> the transport object created, should the
  request open a session.
\<close>

definition app :: "Env \<Rightarrow> jsstring \<Rightarrow> nat \<Rightarrow> Request \<Rightarrow> Registry \<Rightarrow> Outcome \<times> Registry" where
  "app env uuid transport req sseTransports =
     (case bodyFault req of
        Some status \<Rightarrow> (Respond status DefaultErrorPage, sseTransports)
      | None \<Rightarrow>
      if routed (lit ''GET'') (lit ''/health'') req
        then (Respond 200 health, sseTransports)
      else if routed (lit ''POST'') (lit ''/mcp'') req
        then (case apiKeyAuth env req of
                Responded status body \<Rightarrow> (Respond status body, sseTransports)
              | Next \<Rightarrow> (McpRequest, sseTransports))
      else if routed (lit ''GET'') (lit ''/mcp'') req
        then (methodNotAllowed, sseTransports)
      else if routed (lit ''DELETE'') (lit ''/mcp'') req
        then (methodNotAllowed, sseTransports)
      else if routed (lit ''GET'') (lit ''/sse'') req
        then (case apiKeyAuth env req of
                Responded status body \<Rightarrow> (Respond status body, sseTransports)
              | Next \<Rightarrow> (SseOpened uuid transport, sseTransports(uuid \<mapsto> transport)))
      else if routed (lit ''POST'') (lit ''/messages'') req
        then (case apiKeyAuth env req of
                Responded status body \<Rightarrow> (Respond status body, sseTransports)
              | Next \<Rightarrow>
                  (case sessionId req of
                     None \<Rightarrow> (Respond 404 (ErrorBody (lit ''Session not found'')), sseTransports)
                   | Some sid \<Rightarrow>
                       (case sseTransports sid of
                          None \<Rightarrow>
                            (Respond 404 (ErrorBody (lit ''Session not found'')), sseTransports)
                        | Some t \<Rightarrow> (PostMessage t, sseTransports))))
      else (NoRoute, sseTransports))"

text \<open>The \<open>close\<close> event of the streaming connection opened under \<open>sid\<close>.\<close>

definition sseClose :: "jsstring \<Rightarrow> Registry \<Rightarrow> Registry" where
  "sseClose sid sseTransports = sseTransports(sid := None)"

section \<open>Example values\<close>

definition exampleArgs :: "jsstring \<Rightarrow> ToolArgs" where
  "exampleArgs q =
     \<lparr> ToolArgs.query = q, ToolArgs.depth = None, ToolArgs.breadth = None,
       ToolArgs.existingLearnings = None, goal = None, flags = None \<rparr>"

definition exampleResult :: "jsstring \<Rightarrow> ResearchResult" where
  "exampleResult c =
     \<lparr> ResearchResult.learnings = [lit ''a learning''],
       ResearchResult.visitedUrls = [lit ''https://a.example'', lit ''https://b.example''],
       reportPath = None, ResearchResult.content = Some c \<rparr>"

text \<open>
  A world in which the pipeline returns the report \<open>c\<close> and the storage service works,
  one in which the pipeline throws, and one in which the storage service throws.
\<close>

definition exampleWorld :: "nat \<Rightarrow> nat \<Rightarrow> jsstring \<Rightarrow> World" where
  "exampleWorld t1 t2 c =
     \<lparr> now_get = t1, now_set = t2,
       research = (\<lambda>opts. Inr (exampleResult c)),
       readFileSync = (\<lambda>p. Inl (Error (lit ''ENOENT''))),
       toISOString = lit ''2026-01-18T10:20:30.456Z'',
       file_save = (\<lambda>bucket filename reportContent q. Inr ()),
       getSignedUrl = (\<lambda>bucket filename. Inr (lit ''https://storage.example/'' @ filename)) \<rparr>"

definition failingWorld :: "nat \<Rightarrow> World" where
  "failingWorld t = (exampleWorld t t [])\<lparr> research := (\<lambda>opts. Inl (Error (lit ''quota exceeded''))) \<rparr>"

definition storageDownWorld :: "nat \<Rightarrow> jsstring \<Rightarrow> World" where
  "storageDownWorld t c =
     (exampleWorld t t c)\<lparr> file_save := (\<lambda>bucket filename reportContent q. Inl (Error (lit ''bucket unavailable''))) \<rparr>"

definition exampleRequest :: "jsstring \<Rightarrow> jsstring \<Rightarrow> Request" where
  "exampleRequest m p =
     \<lparr> method' = m, path = p, x_api_key = None, authorization = None, sessionId = None,
       bodyFault = None \<rparr>"

definition keyedEnv :: Env where
  "keyedEnv = env0\<lparr> MCP_API_KEY := Some (lit ''secret'') \<rparr>"

definition unreadableWorld :: World where
  "unreadableWorld =
     (exampleWorld 0 0 [])\<lparr> research := (\<lambda>opts. Inr ((exampleResult [])\<lparr>
        reportPath := Some (lit ''out/report.md''), ResearchResult.content := None \<rparr>)) \<rparr>"

definition httpEnv :: Env where
  "httpEnv = env0\<lparr> MCP_HTTP_MODE := Some (lit ''true'') \<rparr>"

section \<open>Definitions for the proofs\<close>

text \<open>
  Not part of the program: a reader for the text \<open>QuoteJSONString\<close> writes, and the
  characters of a number's text. They serve the proof that two key objects with the
  same JSON text are the same object.
\<close>

definition unhexDigit :: "nat \<Rightarrow> nat" where
  "unhexDigit h = (if h < 58 then h - 48 else h - 87)"

definition unescape :: "nat \<Rightarrow> nat" where
  "unescape e =
     (if e = 98 then 8 else if e = 116 then 9 else if e = 110 then 10
      else if e = 102 then 12 else if e = 114 then 13 else e)"

fun unquoteUnits :: "jsstring \<Rightarrow> (jsstring \<times> jsstring) option" where
  "unquoteUnits [] = None"
| "unquoteUnits (c # r) =
     (if c = 34 then Some ([], r)
      else if c = 92 then
        (case r of
           [] \<Rightarrow> None
         | e # r1 \<Rightarrow>
             if e = 117 then
               (case r1 of
                  h1 # h2 # h3 # h4 # r2 \<Rightarrow>
                    map_option
                      (apfst ((#) (4096 * unhexDigit h1 + 256 * unhexDigit h2
                                    + 16 * unhexDigit h3 + unhexDigit h4)))
                      (unquoteUnits r2)
                | _ \<Rightarrow> None)
             else map_option (apfst ((#) (unescape e))) (unquoteUnits r1))
      else map_option (apfst ((#) c)) (unquoteUnits r))"

definition isNumChar :: "nat \<Rightarrow> bool" where
  "isNumChar c \<longleftrightarrow> isDigit c \<or> c = 45"

text \<open>
  The entry \<open>e\<close> of the key \<open>k\<close> is in the cache, and the entries in front of it (the
  ones used more recently) have distinct keys, all among \<open>K\<close>.
\<close>

definition keptBehind :: "jsstring \<Rightarrow> 'v \<times> nat \<Rightarrow> jsstring set \<Rightarrow> 'v lru \<Rightarrow> bool" where
  "keptBehind k e K c \<longleftrightarrow>
     (\<exists>pre post. c = pre @ (k, e) # post \<and> k \<notin> fst ` set pre
        \<and> distinct (map fst pre) \<and> fst ` set pre \<subseteq> K)"

text \<open>
  Calls numbered by their query, in a world where the pipeline and the storage service
  work and the clock stands still, and their cache keys under the identity as the digest.
\<close>

definition numberedCall :: "nat \<Rightarrow> World \<times> ToolArgs" where
  "numberedCall i = (exampleWorld 0 0 (lit ''report''), exampleArgs (natToString i))"

definition numberedKey :: "nat \<Rightarrow> jsstring" where
  "numberedKey i = cacheKey (\<lambda>t. t) (exampleArgs (natToString i))"

section \<open>Properties\<close>

subsection \<open>The cache TTL\<close>

lemma MCP_CACHE_TTL_MS_numeric:
  assumes "parseInt (orDefault (PROVIDER_CACHE_TTL_MS env) (lit ''600000'')) = Num n"
  shows "MCP_CACHE_TTL_MS env = Num (max 1000 (min 86400000 n))"
  using assms by (simp add: MCP_CACHE_TTL_MS_def)

lemma MCP_CACHE_TTL_MS_default: "MCP_CACHE_TTL_MS env0 = Num 600000"
  by (simp add: MCP_CACHE_TTL_MS_def env0_def orDefault_def parseInt_def lit_def
      isWhiteSpace_def isDigit_def)

text \<open>
  C6. The claim: for every value of the TTL variable the computed TTL lies between 1000
  and 86400000. At the value \<open>abc\<close> the parse is \<open>NaN\<close>, which both \<open>Math.min\<close>
  and \<open>Math.max\<close> hand on: the computed TTL is \<open>NaN\<close>, not a number in the range.
\<close>

theorem MCP_CACHE_TTL_MS_nonnumeric:
  "MCP_CACHE_TTL_MS (env0\<lparr>PROVIDER_CACHE_TTL_MS := Some (lit ''abc'')\<rparr>) = NaN"
  by (simp add: MCP_CACHE_TTL_MS_def env0_def orDefault_def parseInt_def lit_def
      isWhiteSpace_def isDigit_def)

subsection \<open>The cache\<close>

lemma lru_delete_absent: "map_of c k = None \<Longrightarrow> lru_delete k c = c"
  by (auto simp: lru_delete_def map_of_eq_None_iff filter_id_conv)

lemma map_of_lru_delete_same: "map_of (lru_delete k c) k = None"
  by (auto simp: lru_delete_def map_of_eq_None_iff)

lemma map_of_lru_delete_other: "k' \<noteq> k \<Longrightarrow> map_of (lru_delete k c) k' = map_of c k'"
  unfolding lru_delete_def by (induction c) auto

lemma lru_get_miss:
  "fst (lru_get ttl now k c) = None \<Longrightarrow> snd (lru_get ttl now k c) = lru_delete k c"
  by (auto simp: lru_get_def lru_delete_absent split: option.splits if_splits)

lemma lru_get_miss_iff:
  "fst (lru_get ttl now k c) = None \<longleftrightarrow>
     (case map_of c k of None \<Rightarrow> True | Some (v, start) \<Rightarrow> isStale ttl now start)"
  by (auto simp: lru_get_def split: option.splits)

lemma lru_get_hit:
  "map_of c k = Some (v, start) \<Longrightarrow> \<not> isStale ttl now start \<Longrightarrow>
   lru_get ttl now k c = (Some v, (k, v, start) # lru_delete k c)"
  by (simp add: lru_get_def)

lemma lru_get_absent: "map_of c k = None \<Longrightarrow> fst (lru_get ttl now k c) = None"
  by (simp add: lru_get_def)

lemma absent_miss:
  "k \<notin> set (map fst c) \<Longrightarrow> fst (lru_get ttl now k c) = None"
  by (simp add: lru_get_absent map_of_eq_None_iff)

lemma keptBehind_map_of: "keptBehind k e K c \<Longrightarrow> map_of c k = Some e"
  by (auto simp: keptBehind_def map_of_append map_add_def map_of_eq_None_iff[symmetric]
      split: option.splits)

lemma keptBehind_mono: "keptBehind k e K c \<Longrightarrow> K \<subseteq> K' \<Longrightarrow> keptBehind k e K' c"
  unfolding keptBehind_def by blast

lemma keptBehind_delete:
  assumes "keptBehind k e K c" and "k' \<noteq> k"
  shows "keptBehind k e K (lru_delete k' c)"
proof -
  from assms(1) obtain pre post where c: "c = pre @ (k, e) # post" and k: "k \<notin> fst ` set pre"
    and d: "distinct (map fst pre)" and K: "fst ` set pre \<subseteq> K"
    unfolding keptBehind_def by blast
  have "lru_delete k' c = lru_delete k' pre @ (k, e) # lru_delete k' post"
    using assms(2) by (simp add: c lru_delete_def)
  moreover have "k \<notin> fst ` set (lru_delete k' pre)"
    using k by (auto simp: lru_delete_def)
  moreover have "distinct (map fst (lru_delete k' pre))"
    using d by (simp add: lru_delete_def distinct_map_filter)
  moreover have "fst ` set (lru_delete k' pre) \<subseteq> K"
    using K by (auto simp: lru_delete_def)
  ultimately show ?thesis
    unfolding keptBehind_def by blast
qed

lemma keptBehind_touch:
  assumes "keptBehind k e K c" and "k' \<noteq> k"
  shows "keptBehind k e (insert k' K) ((k', x) # lru_delete k' c)"
proof -
  from keptBehind_delete[OF assms] obtain pre post
    where c: "lru_delete k' c = pre @ (k, e) # post" and k: "k \<notin> fst ` set pre"
    and d: "distinct (map fst pre)" and K: "fst ` set pre \<subseteq> K"
    unfolding keptBehind_def by blast
  have "k' \<notin> fst ` set (lru_delete k' c)"
    by (auto simp: lru_delete_def)
  then have "k' \<notin> fst ` set pre"
    by (auto simp: c)
  then have "(k', x) # lru_delete k' c = ((k', x) # pre) @ (k, e) # post"
    "k \<notin> fst ` set ((k', x) # pre)" "distinct (map fst ((k', x) # pre))"
    "fst ` set ((k', x) # pre) \<subseteq> insert k' K"
    using c k d K assms(2) by auto
  then show ?thesis
    unfolding keptBehind_def by blast
qed

lemma keptBehind_get:
  assumes "keptBehind k e K c" and "k' \<noteq> k"
  shows "keptBehind k e (insert k' K) (snd (lru_get ttl now k' c))"
proof (cases "map_of c k'")
  case None
  then show ?thesis
    using keptBehind_mono[OF assms(1), of "insert k' K"] by (auto simp: lru_get_def)
next
  case (Some vs)
  obtain v start where vs: "vs = (v, start)" by (cases vs)
  show ?thesis
  proof (cases "isStale ttl now start")
    case True
    then show ?thesis
      using Some vs keptBehind_mono[OF keptBehind_delete[OF assms], of "insert k' K"]
      by (auto simp: lru_get_def)
  next
    case False
    then show ?thesis
      using Some vs keptBehind_touch[OF assms, of "(v, start)"] by (simp add: lru_get_def)
  qed
qed

lemma keptBehind_set:
  assumes inv: "keptBehind k e K c" and ne: "k' \<noteq> k"
    and fin: "finite K" and few: "card (insert k' K) < m"
  shows "keptBehind k e (insert k' K) (lru_set m now k' v c)"
proof (cases "map_of c k'")
  case (Some a)
  then show ?thesis
    using keptBehind_touch[OF inv ne, of "(v, now)"] by (simp add: lru_set_def)
next
  case None
  from inv obtain pre post where c: "c = pre @ (k, e) # post" and k: "k \<notin> fst ` set pre"
    and d: "distinct (map fst pre)" and K: "fst ` set pre \<subseteq> K"
    unfolding keptBehind_def by blast
  from None have absent: "k' \<notin> fst ` set c"
    by (simp add: map_of_eq_None_iff)
  then have k'pre: "k' \<notin> fst ` set pre"
    by (auto simp: c)
  let ?c' = "if m \<le> length c then butlast c else c"
  have "\<exists>post'. ?c' = pre @ (k, e) # post'"
  proof (cases "m \<le> length c \<and> post = []")
    case True
    have "length pre = card (fst ` set pre)"
      using d by (metis distinct_card length_map set_map)
    also have "\<dots> \<le> card (K - {k'})"
      using K k'pre fin by (intro card_mono) auto
    also have "\<dots> < card (insert k' K)"
      using fin by (simp add: card.insert_remove)
    finally have "length pre + 1 < m"
      using few by linarith
    with True show ?thesis by (simp add: c)
  next
    case False
    then show ?thesis
      by (auto simp: c butlast_append)
  qed
  then obtain post' where "?c' = pre @ (k, e) # post'" by blast
  then have "(k', v, now) # ?c' = ((k', v, now) # pre) @ (k, e) # post'"
    "k \<notin> fst ` set ((k', v, now) # pre)" "distinct (map fst ((k', v, now) # pre))"
    "fst ` set ((k', v, now) # pre) \<subseteq> insert k' K"
    using k d K ne k'pre by auto
  then have "keptBehind k e (insert k' K) ((k', v, now) # ?c')"
    unfolding keptBehind_def by blast
  then show ?thesis
    using None by (simp add: lru_set_def)
qed

subsection \<open>The handler, step by step\<close>

lemma run_hit:
  "lru_get (MCP_CACHE_TTL_MS env) (now_get w) (cacheKey H args) (cache s) = (Some r, c) \<Longrightarrow>
   deepResearch_run env H w args s = (r, s\<lparr>cache := c\<rparr>)"
  by (simp add: deepResearch_run_def)

lemma run_miss:
  assumes "fst (lru_get (MCP_CACHE_TTL_MS env) (now_get w) (cacheKey H args) (cache s)) = None"
  shows "deepResearch_run env H w args s =
     (let s1 = s\<lparr> cache := lru_delete (cacheKey H args) (cache s),
                  researchCalls := researchCalls s @ [researchOptions args] \<rparr>
      in case research w (researchOptions args) of
           Inl e \<Rightarrow> (errorResult e, s1)
         | Inr result \<Rightarrow> deliver env w (cacheKey H args) (ToolArgs.query args) result s1)"
proof -
  obtain c where "lru_get (MCP_CACHE_TTL_MS env) (now_get w) (cacheKey H args) (cache s) = (None, c)"
    using assms by (cases "lru_get (MCP_CACHE_TTL_MS env) (now_get w) (cacheKey H args) (cache s)") auto
  moreover from this have "c = lru_delete (cacheKey H args) (cache s)"
    using lru_get_miss[OF assms] by simp
  ultimately show ?thesis by (simp add: deepResearch_run_def Let_def)
qed

lemma run_miss_ok:
  assumes "fst (lru_get (MCP_CACHE_TTL_MS env) (now_get w) (cacheKey H args) (cache s)) = None"
    and "research w (researchOptions args) = Inr result"
  shows "deepResearch_run env H w args s =
     deliver env w (cacheKey H args) (ToolArgs.query args) result
       (s\<lparr> cache := lru_delete (cacheKey H args) (cache s),
           researchCalls := researchCalls s @ [researchOptions args] \<rparr>)"
  using assms(2) by (simp add: run_miss[OF assms(1)] Let_def)

lemma run_miss_throw:
  assumes "fst (lru_get (MCP_CACHE_TTL_MS env) (now_get w) (cacheKey H args) (cache s)) = None"
    and "research w (researchOptions args) = Inl e"
  shows "deepResearch_run env H w args s =
     (errorResult e, s\<lparr> cache := lru_delete (cacheKey H args) (cache s),
           researchCalls := researchCalls s @ [researchOptions args] \<rparr>)"
  using assms(2) by (simp add: run_miss[OF assms(1)] Let_def)

lemma deliver_metadata:
  "Metadata.learnings (metadata (fst (deliver env w key q result s))) = ResearchResult.learnings result"
  "Metadata.visitedUrls (metadata (fst (deliver env w key q result s))) = ResearchResult.visitedUrls result"
  "totalLearnings (stats (metadata (fst (deliver env w key q result s)))) = length (ResearchResult.learnings result)"
  "totalSources (stats (metadata (fst (deliver env w key q result s)))) = length (ResearchResult.visitedUrls result)"
  "reportSizeKB (metadata (fst (deliver env w key q result s))) = Some (sizeKB (reportContentOf w result))"
  by (simp_all add: deliver_def Let_def)

lemma deliver_cache:
  "cache (snd (deliver env w key q result s)) =
     lru_set cacheMax (now_set w) key (fst (deliver env w key q result s)) (cache s)"
  by (simp add: deliver_def Let_def)

lemma deliver_researchCalls:
  "researchCalls (snd (deliver env w key q result s)) = researchCalls s"
  by (simp add: deliver_def Let_def)

lemma deliver_url_mode:
  assumes "useUrlMode (isHttpMode env) (sizeKB (reportContentOf w result))"
  shows "reportUrl (metadata (fst (deliver env w key q result s))) =
           Some (case uploadReportToGCS env w (reportContentOf w result) q of
                   Inr u \<Rightarrow> u | Inl _ \<Rightarrow> uploadErrorMarker)"
    and "uploadCalls (snd (deliver env w key q result s)) =
           uploadCalls s @ [(reportContentOf w result, q)]"
    and "MCPResearchResult.content (fst (deliver env w key q result s)) =
           [textBlock (urlModeText (sizeKB (reportContentOf w result))
              (case uploadReportToGCS env w (reportContentOf w result) q of
                   Inr u \<Rightarrow> u | Inl _ \<Rightarrow> uploadErrorMarker)
              (sizeNoteOf (isHttpMode env) (sizeKB (reportContentOf w result)))
              (suggestedFilenameOf q))]"
  using assms by (simp_all add: deliver_def Let_def)

lemma deliver_inline_mode:
  assumes "\<not> useUrlMode (isHttpMode env) (sizeKB (reportContentOf w result))"
  shows "reportUrl (metadata (fst (deliver env w key q result s))) = None"
    and "uploadCalls (snd (deliver env w key q result s)) = uploadCalls s"
    and "MCPResearchResult.content (fst (deliver env w key q result s)) =
           [textBlock (heading @ nl @ nl @ reportContentOf w result)]"
  using assms by (simp_all add: deliver_def Let_def)

lemma run_miss_researchCalls:
  assumes "fst (lru_get (MCP_CACHE_TTL_MS env) (now_get w) (cacheKey H args) (cache s)) = None"
  shows "researchCalls (snd (deepResearch_run env H w args s)) =
           researchCalls s @ [researchOptions args]"
  by (cases "research w (researchOptions args)")
     (simp_all add: run_miss[OF assms] Let_def deliver_researchCalls)

lemma run_hit_researchCalls:
  assumes "fst (lru_get (MCP_CACHE_TTL_MS env) (now_get w) (cacheKey H args) (cache s)) = Some r"
  shows "deepResearch_run env H w args s =
           (r, s\<lparr> cache := snd (lru_get (MCP_CACHE_TTL_MS env) (now_get w) (cacheKey H args) (cache s)) \<rparr>)"
  using assms run_hit[of env w H args s r] by (metis prod.collapse)

lemma reportContentOf_unreadable:
  assumes "falsy (ResearchResult.content result)" and "reportPath result = Some p" and "p \<noteq> []"
    and "readFileSync w p = Inl e"
  shows "reportContentOf w result = lit ''Error reading report file.''"
  using assms by (simp add: reportContentOf_def falsy_def lit_def)

lemma reportContentOf_content:
  "ResearchResult.content result = Some c \<Longrightarrow> c \<noteq> [] \<Longrightarrow> reportContentOf w result = c"
  by (simp add: reportContentOf_def falsy_def)

lemma byteLength_ascii: "list_all (\<lambda>c. c < 128) s \<Longrightarrow> byteLength s = length s"
  by (induction s rule: byteLength.induct) auto

lemma sizeKB_replicate: "sizeKB (replicate n 97) = (n + 512) div 1024"
  by (simp add: sizeKB_def byteLength_ascii list_all_length)

lemma stored_by_successful_call:
  assumes miss: "fst (lru_get (MCP_CACHE_TTL_MS env) (now_get w) (cacheKey H a) (cache s)) = None"
    and ok: "research w (researchOptions a) = Inr result"
  shows "\<exists>rest. cache (snd (deepResearch_run env H w a s)) =
           (cacheKey H a, fst (deepResearch_run env H w a s), now_set w) # rest"
  by (simp add: run_miss_ok[OF miss ok] deliver_cache lru_set_def map_of_lru_delete_same)

lemma fresh_call:
  assumes absent: "cacheKey H a \<notin> set (map fst (cache s))"
    and ok: "research w (researchOptions a) = Inr res"
  shows "map fst (cache (snd (deepResearch_run env H w a s))) =
           cacheKey H a # (if cacheMax \<le> length (cache s) then butlast (map fst (cache s))
                           else map fst (cache s))"
    and "researchCalls (snd (deepResearch_run env H w a s)) = researchCalls s @ [researchOptions a]"
proof -
  have none: "map_of (cache s) (cacheKey H a) = None"
    using absent by (simp add: map_of_eq_None_iff)
  have miss: "fst (lru_get (MCP_CACHE_TTL_MS env) (now_get w) (cacheKey H a) (cache s)) = None"
    using absent by (rule absent_miss)
  show "map fst (cache (snd (deepResearch_run env H w a s))) =
           cacheKey H a # (if cacheMax \<le> length (cache s) then butlast (map fst (cache s))
                           else map fst (cache s))"
    by (simp add: run_miss_ok[OF miss ok] deliver_cache lru_delete_absent[OF none]
        lru_set_def none map_butlast)
  show "researchCalls (snd (deepResearch_run env H w a s)) = researchCalls s @ [researchOptions a]"
    using miss by (rule run_miss_researchCalls)
qed

lemma keptBehind_run:
  assumes inv: "keptBehind k e K (cache s)" and ne: "cacheKey H a \<noteq> k"
    and fin: "finite K" and few: "card (insert (cacheKey H a) K) < cacheMax"
  shows "keptBehind k e (insert (cacheKey H a) K) (cache (snd (deepResearch_run env H w a s)))"
proof (cases "fst (lru_get (MCP_CACHE_TTL_MS env) (now_get w) (cacheKey H a) (cache s))")
  case None
  have del: "keptBehind k e K (lru_delete (cacheKey H a) (cache s))"
    using inv ne by (rule keptBehind_delete)
  show ?thesis
  proof (cases "research w (researchOptions a)")
    case (Inl err)
    then show ?thesis
      using keptBehind_mono[OF del, of "insert (cacheKey H a) K"]
      by (auto simp: run_miss_throw[OF None])
  next
    case (Inr result)
    show ?thesis
      using keptBehind_set[OF _ ne fin few, of e] del
      by (simp add: run_miss_ok[OF None Inr] deliver_cache)
  qed
next
  case (Some r)
  show ?thesis
    using keptBehind_get[OF inv ne] by (simp add: run_hit_researchCalls[OF Some])
qed

lemma keptBehind_runCalls:
  assumes "keptBehind k e K (cache s)" and "finite K"
    and "\<forall>(w, a) \<in> set calls. cacheKey H a \<noteq> k"
    and "card (K \<union> (\<lambda>(w, a). cacheKey H a) ` set calls) < cacheMax"
  shows "keptBehind k e (K \<union> (\<lambda>(w, a). cacheKey H a) ` set calls)
           (cache (runCalls env H calls s))"
  using assms
proof (induction calls arbitrary: s K)
  case Nil
  then show ?case by simp
next
  case (Cons c calls)
  obtain w a where c: "c = (w, a)" by (cases c)
  let ?K1 = "insert (cacheKey H a) K"
  have sub: "?K1 \<subseteq> K \<union> (\<lambda>(w, a). cacheKey H a) ` set (c # calls)"
    by (auto simp: c)
  have finall: "finite (K \<union> (\<lambda>(w, a). cacheKey H a) ` set (c # calls))"
    using Cons.prems(2) by simp
  have "card ?K1 \<le> card (K \<union> (\<lambda>(w, a). cacheKey H a) ` set (c # calls))"
    using sub finall by (rule card_mono[rotated])
  then have few1: "card ?K1 < cacheMax"
    using Cons.prems(4) by linarith
  have ne: "cacheKey H a \<noteq> k"
    using Cons.prems(3) by (simp add: c)
  have inv1: "keptBehind k e ?K1 (cache (snd (deepResearch_run env H w a s)))"
    using Cons.prems(1) ne Cons.prems(2) few1 by (rule keptBehind_run)
  have eq: "?K1 \<union> (\<lambda>(w, a). cacheKey H a) ` set calls
      = K \<union> (\<lambda>(w, a). cacheKey H a) ` set (c # calls)"
    by (auto simp: c)
  have "keptBehind k e (?K1 \<union> (\<lambda>(w, a). cacheKey H a) ` set calls)
      (cache (runCalls env H calls (snd (deepResearch_run env H w a s))))"
  proof (rule Cons.IH[OF inv1])
    show "finite ?K1" using Cons.prems(2) by simp
    show "\<forall>(w, a) \<in> set calls. cacheKey H a \<noteq> k" using Cons.prems(3) by simp
    show "card (?K1 \<union> (\<lambda>(w, a). cacheKey H a) ` set calls) < cacheMax"
      using Cons.prems(4) by (simp only: eq)
  qed
  then show ?case
    by (simp add: c eq del: Un_insert_left)
qed

lemma runCalls_append:
  "runCalls env H (xs @ ys) s = runCalls env H ys (runCalls env H xs s)"
  by (induction xs arbitrary: s) auto

subsection \<open>Delivery and failures\<close>

text \<open>
  C2. For a completed pipeline result the report is uploaded, and the result carries a
  \<open>reportUrl\<close> and the download text, exactly when the HTTP mode is set or the size in
  kilobytes exceeds 50; otherwise nothing is uploaded and the text block holds the
  report. 49 KB without the HTTP mode is inline, 51 KB is offloaded, and with the HTTP
  mode every size is offloaded.
\<close>

theorem delivery_mode_decision:
  assumes miss: "fst (lru_get (MCP_CACHE_TTL_MS env) (now_get w) (cacheKey H args) (cache s)) = None"
    and ok: "research w (researchOptions args) = Inr result"
    and run: "deepResearch_run env H w args s = (r, s')"
  shows "(isHttpMode env \<or> sizeKB (reportContentOf w result) > 50 \<longrightarrow>
            uploadCalls s' = uploadCalls s @ [(reportContentOf w result, ToolArgs.query args)]
            \<and> reportUrl (metadata r) =
                Some (case uploadReportToGCS env w (reportContentOf w result) (ToolArgs.query args) of
                        Inr u \<Rightarrow> u | Inl _ \<Rightarrow> uploadErrorMarker)
            \<and> MCPResearchResult.content r =
                [textBlock (urlModeText (sizeKB (reportContentOf w result))
                   (case uploadReportToGCS env w (reportContentOf w result) (ToolArgs.query args) of
                      Inr u \<Rightarrow> u | Inl _ \<Rightarrow> uploadErrorMarker)
                   (sizeNoteOf (isHttpMode env) (sizeKB (reportContentOf w result)))
                   (suggestedFilenameOf (ToolArgs.query args)))])
       \<and> (\<not> (isHttpMode env \<or> sizeKB (reportContentOf w result) > 50) \<longrightarrow>
            uploadCalls s' = uploadCalls s
            \<and> reportUrl (metadata r) = None
            \<and> MCPResearchResult.content r =
                [textBlock (heading @ nl @ nl @ reportContentOf w result)])
       \<and> \<not> useUrlMode False 49 \<and> useUrlMode False 51 \<and> (\<forall>kb. useUrlMode True kb)"
proof -
  have rs: "(r, s') = deliver env w (cacheKey H args) (ToolArgs.query args) result
      (s\<lparr> cache := lru_delete (cacheKey H args) (cache s),
          researchCalls := researchCalls s @ [researchOptions args] \<rparr>)"
    using run by (simp add: run_miss_ok[OF miss ok])
  have r: "r = fst (deliver env w (cacheKey H args) (ToolArgs.query args) result
      (s\<lparr> cache := lru_delete (cacheKey H args) (cache s),
          researchCalls := researchCalls s @ [researchOptions args] \<rparr>))"
   and s': "s' = snd (deliver env w (cacheKey H args) (ToolArgs.query args) result
      (s\<lparr> cache := lru_delete (cacheKey H args) (cache s),
          researchCalls := researchCalls s @ [researchOptions args] \<rparr>))"
    using rs by (metis fst_conv, metis snd_conv)
  have mode: "useUrlMode (isHttpMode env) (sizeKB (reportContentOf w result)) \<longleftrightarrow>
      isHttpMode env \<or> sizeKB (reportContentOf w result) > 50"
    by (simp add: useUrlMode_def SIZE_THRESHOLD_KB_def)
  show ?thesis
    unfolding r s'
    using deliver_url_mode[of env w result] deliver_inline_mode[of env w result]
    by (simp add: mode useUrlMode_def SIZE_THRESHOLD_KB_def)
qed

theorem delivery_mode_decision_witness:
  "reportUrl (metadata (fst (deepResearch_run env0 (\<lambda>t. t) (exampleWorld 0 0 (replicate 50176 97))
      (exampleArgs (lit ''q'')) initialState))) = None
   \<and> reportSizeKB (metadata (fst (deepResearch_run env0 (\<lambda>t. t) (exampleWorld 0 0 (replicate 50176 97))
      (exampleArgs (lit ''q'')) initialState))) = Some 49
   \<and> uploadCalls (snd (deepResearch_run env0 (\<lambda>t. t) (exampleWorld 0 0 (replicate 52224 97))
      (exampleArgs (lit ''q'')) initialState)) = [(replicate 52224 97, lit ''q'')]
   \<and> reportSizeKB (metadata (fst (deepResearch_run env0 (\<lambda>t. t) (exampleWorld 0 0 (replicate 52224 97))
      (exampleArgs (lit ''q'')) initialState))) = Some 51
   \<and> uploadCalls (snd (deepResearch_run httpEnv (\<lambda>t. t) (exampleWorld 0 0 (lit ''report''))
      (exampleArgs (lit ''q'')) initialState)) = [(lit ''report'', lit ''q'')]"
proof -
  have miss: "fst (lru_get (MCP_CACHE_TTL_MS env) (now_get (exampleWorld 0 0 c))
        (cacheKey (\<lambda>t. t) (exampleArgs (lit ''q''))) (cache initialState)) = None" for env c
    by (simp add: lru_get_def initialState_def)
  have ok: "research (exampleWorld 0 0 c) (researchOptions (exampleArgs (lit ''q''))) =
      Inr (exampleResult c)" for c
    by (simp add: exampleWorld_def)
  have rc: "c \<noteq> [] \<Longrightarrow> reportContentOf (exampleWorld 0 0 c) (exampleResult c) = c" for c
    by (rule reportContentOf_content) (simp_all add: exampleResult_def)
  have q: "ToolArgs.query (exampleArgs (lit ''q'')) = lit ''q''"
    by (simp add: exampleArgs_def)
  have stdio: "\<not> isHttpMode env0" and http: "isHttpMode httpEnv"
    by (simp_all add: isHttpMode_def env0_def httpEnv_def)
  have u0: "uploadCalls initialState = []"
    by (simp add: initialState_def)
  have small: "lit ''report'' \<noteq> []"
    by (simp add: lit_def)
  have a: "reportUrl (metadata (fst (deepResearch_run env0 (\<lambda>t. t) (exampleWorld 0 0 (replicate 50176 97))
      (exampleArgs (lit ''q'')) initialState))) = None"
    using delivery_mode_decision[OF miss ok surjective_pairing, of env0 "replicate 50176 97"] stdio
    by (simp add: rc sizeKB_replicate)
  have b: "uploadCalls (snd (deepResearch_run env0 (\<lambda>t. t) (exampleWorld 0 0 (replicate 52224 97))
      (exampleArgs (lit ''q'')) initialState)) = [(replicate 52224 97, lit ''q'')]"
    using delivery_mode_decision[OF miss ok surjective_pairing, of env0 "replicate 52224 97"] stdio
    by (simp add: rc sizeKB_replicate q u0)
  have c: "uploadCalls (snd (deepResearch_run httpEnv (\<lambda>t. t) (exampleWorld 0 0 (lit ''report''))
      (exampleArgs (lit ''q'')) initialState)) = [(lit ''report'', lit ''q'')]"
    using delivery_mode_decision[OF miss ok surjective_pairing, of httpEnv "lit ''report''"] http
    by (simp add: rc[OF small] q u0)
  have kb: "reportSizeKB (metadata (fst (deepResearch_run env0 (\<lambda>t. t) (exampleWorld 0 0 (replicate n 97))
      (exampleArgs (lit ''q'')) initialState))) = Some ((n + 512) div 1024)" if "n \<noteq> 0" for n
    using that by (simp add: run_miss_ok[OF miss ok] deliver_metadata rc sizeKB_replicate)
  show ?thesis
    using a b c kb[of 50176] kb[of 52224] by simp
qed

text \<open>
  C4. The claim: when the pipeline invocation or the report retrieval throws, the result
  is an error text with empty metadata. Where the read of the report file throws, the
  handler's inner \<open>catch\<close> puts a fixed text in the report's place and goes on: the
  metadata hold the pipeline's learnings and sources.
\<close>

theorem report_read_failure_counterexample:
  "research unreadableWorld (researchOptions (exampleArgs (lit ''q''))) =
      Inr \<lparr> ResearchResult.learnings = [lit ''a learning''],
            ResearchResult.visitedUrls = [lit ''https://a.example'', lit ''https://b.example''],
            reportPath = Some (lit ''out/report.md''), ResearchResult.content = None \<rparr>
   \<and> readFileSync unreadableWorld (lit ''out/report.md'') = Inl (Error (lit ''ENOENT''))
   \<and> Metadata.learnings (metadata (fst (deepResearch_run env0 (\<lambda>t. t) unreadableWorld
         (exampleArgs (lit ''q'')) initialState))) = [lit ''a learning'']
   \<and> totalSources (stats (metadata (fst (deepResearch_run env0 (\<lambda>t. t) unreadableWorld
         (exampleArgs (lit ''q'')) initialState)))) = 2
   \<and> MCPResearchResult.content (fst (deepResearch_run env0 (\<lambda>t. t) unreadableWorld
         (exampleArgs (lit ''q'')) initialState)) =
       [\<lparr> type' = lit ''text'', text' = heading @ nl @ nl @ lit ''Error reading report file.'' \<rparr>]"
proof -
  let ?res = "\<lparr> ResearchResult.learnings = [lit ''a learning''],
            ResearchResult.visitedUrls = [lit ''https://a.example'', lit ''https://b.example''],
            reportPath = Some (lit ''out/report.md''), ResearchResult.content = None \<rparr>"
  have miss: "fst (lru_get (MCP_CACHE_TTL_MS env0) (now_get unreadableWorld)
        (cacheKey (\<lambda>t. t) (exampleArgs (lit ''q''))) (cache initialState)) = None"
    by (simp add: lru_get_def initialState_def)
  have ok: "research unreadableWorld (researchOptions (exampleArgs (lit ''q''))) = Inr ?res"
    by (simp add: unreadableWorld_def exampleWorld_def exampleResult_def)
  have rd: "readFileSync unreadableWorld (lit ''out/report.md'') = Inl (Error (lit ''ENOENT''))"
    by (simp add: unreadableWorld_def exampleWorld_def)
  have rc: "reportContentOf unreadableWorld ?res = lit ''Error reading report file.''"
    by (rule reportContentOf_unreadable[OF _ _ _ rd]) (simp_all add: falsy_def lit_def)
  have kb: "sizeKB (lit ''Error reading report file.'') = 0"
    by (simp add: sizeKB_def lit_def)
  have inl: "\<not> useUrlMode (isHttpMode env0) (sizeKB (reportContentOf unreadableWorld ?res))"
    by (simp add: rc kb useUrlMode_def isHttpMode_def env0_def SIZE_THRESHOLD_KB_def)
  show ?thesis
    using ok rd
    by (simp add: run_miss_ok[OF miss ok] deliver_metadata deliver_inline_mode[OF inl] rc
        textBlock_def)
qed

text \<open>
  C4, amended. On a cache miss, a pipeline invocation that throws gives the error result:
  one text block with the error's message and empty metadata. A report file whose read
  throws gives the report text \<open>Error reading report file.\<close> and a result of the success
  path, with the pipeline's learnings and sources. The handler returns a result in
  both cases.
\<close>

theorem failures_become_results:
  assumes miss: "fst (lru_get (MCP_CACHE_TTL_MS env) (now_get w) (cacheKey H args) (cache s)) = None"
  shows "(\<forall>e. research w (researchOptions args) = Inl e \<longrightarrow>
            fst (deepResearch_run env H w args s) =
              \<lparr> MCPResearchResult.content =
                  [\<lparr> type' = lit ''text'',
                     text' = lit ''Error during deep research: '' @ errorMessage e \<rparr>],
                metadata =
                  \<lparr> Metadata.learnings = [], Metadata.visitedUrls = [],
                    stats = \<lparr> totalLearnings = 0, totalSources = 0 \<rparr>,
                    reportUrl = None, reportSizeKB = None \<rparr> \<rparr>)
       \<and> (\<forall>result p e.
            research w (researchOptions args) = Inr result
            \<and> falsy (ResearchResult.content result) \<and> reportPath result = Some p \<and> p \<noteq> []
            \<and> readFileSync w p = Inl e \<longrightarrow>
              reportContentOf w result = lit ''Error reading report file.''
              \<and> Metadata.learnings (metadata (fst (deepResearch_run env H w args s)))
                  = ResearchResult.learnings result
              \<and> Metadata.visitedUrls (metadata (fst (deepResearch_run env H w args s)))
                  = ResearchResult.visitedUrls result
              \<and> reportSizeKB (metadata (fst (deepResearch_run env H w args s)))
                  = Some (sizeKB (lit ''Error reading report file.''))
              \<and> (\<not> isHttpMode env \<longrightarrow>
                   MCPResearchResult.content (fst (deepResearch_run env H w args s)) =
                     [\<lparr> type' = lit ''text'',
                        text' = heading @ nl @ nl @ lit ''Error reading report file.'' \<rparr>]))"
proof (intro conjI allI impI)
  fix e assume "research w (researchOptions args) = Inl e"
  then show "fst (deepResearch_run env H w args s) =
              \<lparr> MCPResearchResult.content =
                  [\<lparr> type' = lit ''text'',
                     text' = lit ''Error during deep research: '' @ errorMessage e \<rparr>],
                metadata =
                  \<lparr> Metadata.learnings = [], Metadata.visitedUrls = [],
                    stats = \<lparr> totalLearnings = 0, totalSources = 0 \<rparr>,
                    reportUrl = None, reportSizeKB = None \<rparr> \<rparr>"
    by (simp add: run_miss_throw[OF miss] errorResult_def textBlock_def)
next
  fix result p e
  assume a: "research w (researchOptions args) = Inr result
            \<and> falsy (ResearchResult.content result) \<and> reportPath result = Some p \<and> p \<noteq> []
            \<and> readFileSync w p = Inl e"
  then have ok: "research w (researchOptions args) = Inr result" by simp
  from a show rc: "reportContentOf w result = lit ''Error reading report file.''"
    by (simp add: reportContentOf_unreadable)
  show "Metadata.learnings (metadata (fst (deepResearch_run env H w args s)))
                  = ResearchResult.learnings result"
    by (simp add: run_miss_ok[OF miss ok] deliver_metadata)
  show "Metadata.visitedUrls (metadata (fst (deepResearch_run env H w args s)))
                  = ResearchResult.visitedUrls result"
    by (simp add: run_miss_ok[OF miss ok] deliver_metadata)
  show "reportSizeKB (metadata (fst (deepResearch_run env H w args s)))
                  = Some (sizeKB (lit ''Error reading report file.''))"
    by (simp add: run_miss_ok[OF miss ok] deliver_metadata rc)
  assume stdio: "\<not> isHttpMode env"
  have kb: "sizeKB (lit ''Error reading report file.'') = 0"
    by (simp add: sizeKB_def lit_def)
  have inl: "\<not> useUrlMode (isHttpMode env) (sizeKB (reportContentOf w result))"
    using stdio by (simp add: rc kb useUrlMode_def SIZE_THRESHOLD_KB_def)
  show "MCPResearchResult.content (fst (deepResearch_run env H w args s)) =
                     [\<lparr> type' = lit ''text'',
                        text' = heading @ nl @ nl @ lit ''Error reading report file.'' \<rparr>]"
    by (simp add: run_miss_ok[OF miss ok] deliver_inline_mode[OF inl] rc textBlock_def)
qed

theorem failures_become_results_witness:
  "research (failingWorld 0) (researchOptions (exampleArgs (lit ''q''))) =
      Inl (Error (lit ''quota exceeded''))
   \<and> fst (deepResearch_run env0 (\<lambda>t. t) (failingWorld 0) (exampleArgs (lit ''q'')) initialState) =
       \<lparr> MCPResearchResult.content =
           [\<lparr> type' = lit ''text'', text' = lit ''Error during deep research: quota exceeded'' \<rparr>],
         metadata =
           \<lparr> Metadata.learnings = [], Metadata.visitedUrls = [],
             stats = \<lparr> totalLearnings = 0, totalSources = 0 \<rparr>,
             reportUrl = None, reportSizeKB = None \<rparr> \<rparr>
   \<and> readFileSync unreadableWorld (lit ''out/report.md'') = Inl (Error (lit ''ENOENT''))
   \<and> reportSizeKB (metadata (fst (deepResearch_run env0 (\<lambda>t. t) unreadableWorld
         (exampleArgs (lit ''q'')) initialState))) = Some 0"
proof -
  have miss1: "fst (lru_get (MCP_CACHE_TTL_MS env0) (now_get (failingWorld 0))
        (cacheKey (\<lambda>t. t) (exampleArgs (lit ''q''))) (cache initialState)) = None"
    by (simp add: lru_get_def initialState_def)
  have miss2: "fst (lru_get (MCP_CACHE_TTL_MS env0) (now_get unreadableWorld)
        (cacheKey (\<lambda>t. t) (exampleArgs (lit ''q''))) (cache initialState)) = None"
    by (simp add: lru_get_def initialState_def)
  have throws: "research (failingWorld 0) (researchOptions (exampleArgs (lit ''q''))) =
      Inl (Error (lit ''quota exceeded''))"
    by (simp add: failingWorld_def exampleWorld_def)
  have ok: "research unreadableWorld (researchOptions (exampleArgs (lit ''q''))) =
      Inr ((exampleResult [])\<lparr> reportPath := Some (lit ''out/report.md''),
             ResearchResult.content := None \<rparr>)"
    by (simp add: unreadableWorld_def exampleWorld_def)
  have rd: "readFileSync unreadableWorld (lit ''out/report.md'') = Inl (Error (lit ''ENOENT''))"
    by (simp add: unreadableWorld_def exampleWorld_def)
  have p: "lit ''out/report.md'' \<noteq> []"
    by (simp add: lit_def)
  have kb: "sizeKB (lit ''Error reading report file.'') = 0"
    by (simp add: sizeKB_def lit_def)
  have one: "fst (deepResearch_run env0 (\<lambda>t. t) (failingWorld 0) (exampleArgs (lit ''q'')) initialState) =
       \<lparr> MCPResearchResult.content =
           [\<lparr> type' = lit ''text'', text' = lit ''Error during deep research: quota exceeded'' \<rparr>],
         metadata =
           \<lparr> Metadata.learnings = [], Metadata.visitedUrls = [],
             stats = \<lparr> totalLearnings = 0, totalSources = 0 \<rparr>,
             reportUrl = None, reportSizeKB = None \<rparr> \<rparr>"
    using failures_become_results[OF miss1] throws by (simp add: errorMessage_def lit_def)
  have two: "reportSizeKB (metadata (fst (deepResearch_run env0 (\<lambda>t. t) unreadableWorld
         (exampleArgs (lit ''q'')) initialState))) = Some 0"
    using failures_become_results[OF miss2] ok rd p kb by (simp add: falsy_def)
  show ?thesis using throws one rd two by simp
qed

text \<open>
  C5. When the delivery is offloaded and the upload throws, the call returns a normal
  result: its \<open>reportUrl\<close> is the error marker, the metadata are the pipeline's, and the
  text block is the usual download text with the marker in place of the URL.
\<close>

theorem upload_failure_leaves_marker:
  assumes miss: "fst (lru_get (MCP_CACHE_TTL_MS env) (now_get w) (cacheKey H args) (cache s)) = None"
    and ok: "research w (researchOptions args) = Inr result"
    and offloaded: "useUrlMode (isHttpMode env) (sizeKB (reportContentOf w result))"
    and throws: "uploadReportToGCS env w (reportContentOf w result) (ToolArgs.query args) = Inl e"
    and run: "deepResearch_run env H w args s = (r, s')"
  shows "reportUrl (metadata r) = Some (lit ''ERROR: Failed to upload report to cloud storage'')
       \<and> reportSizeKB (metadata r) = Some (sizeKB (reportContentOf w result))
       \<and> Metadata.learnings (metadata r) = ResearchResult.learnings result
       \<and> Metadata.visitedUrls (metadata r) = ResearchResult.visitedUrls result
       \<and> MCPResearchResult.content r =
           [\<lparr> type' = lit ''text'',
              text' = urlModeText (sizeKB (reportContentOf w result))
                (lit ''ERROR: Failed to upload report to cloud storage'')
                (sizeNoteOf (isHttpMode env) (sizeKB (reportContentOf w result)))
                (suggestedFilenameOf (ToolArgs.query args)) \<rparr>]"
proof -
  have r: "r = fst (deliver env w (cacheKey H args) (ToolArgs.query args) result
      (s\<lparr> cache := lru_delete (cacheKey H args) (cache s),
          researchCalls := researchCalls s @ [researchOptions args] \<rparr>))"
    using run by (simp add: run_miss_ok[OF miss ok])
  show ?thesis
    unfolding r
    by (simp add: deliver_metadata deliver_url_mode[OF offloaded] throws
        uploadErrorMarker_def textBlock_def)
qed

theorem upload_failure_leaves_marker_witness:
  "uploadReportToGCS httpEnv (storageDownWorld 0 (lit ''report''))
      (reportContentOf (storageDownWorld 0 (lit ''report'')) (exampleResult (lit ''report'')))
      (ToolArgs.query (exampleArgs (lit ''q''))) = Inl (Error (lit ''bucket unavailable''))
   \<and> useUrlMode (isHttpMode httpEnv)
        (sizeKB (reportContentOf (storageDownWorld 0 (lit ''report'')) (exampleResult (lit ''report''))))
   \<and> reportUrl (metadata (fst (deepResearch_run httpEnv (\<lambda>t. t)
         (storageDownWorld 0 (lit ''report'')) (exampleArgs (lit ''q'')) initialState)))
       = Some (lit ''ERROR: Failed to upload report to cloud storage'')"
proof -
  let ?w = "storageDownWorld 0 (lit ''report'')"
  have miss: "fst (lru_get (MCP_CACHE_TTL_MS httpEnv) (now_get ?w)
        (cacheKey (\<lambda>t. t) (exampleArgs (lit ''q''))) (cache initialState)) = None"
    by (simp add: lru_get_def initialState_def)
  have ok: "research ?w (researchOptions (exampleArgs (lit ''q''))) = Inr (exampleResult (lit ''report''))"
    by (simp add: storageDownWorld_def exampleWorld_def)
  have off: "useUrlMode (isHttpMode httpEnv) (sizeKB (reportContentOf ?w (exampleResult (lit ''report''))))"
    by (simp add: useUrlMode_def isHttpMode_def httpEnv_def env0_def)
  have throws: "uploadReportToGCS httpEnv ?w (reportContentOf ?w (exampleResult (lit ''report'')))
      (ToolArgs.query (exampleArgs (lit ''q''))) = Inl (Error (lit ''bucket unavailable''))"
    by (simp add: uploadReportToGCS_def storageDownWorld_def exampleWorld_def Let_def)
  show ?thesis
    using upload_failure_leaves_marker[OF miss ok off throws surjective_pairing] off throws
    by simp
qed

text \<open>
  C9. A call whose pipeline invocation throws leaves the cache as its lookup left it:
  the failure writes nothing. The cache holds no entry under the call's key afterwards
  and all other entries are as they were; it is the cache of before the call altogether,
  unless the lookup dropped an expired entry of this key. The next call with the same
  inputs invokes the pipeline again.
\<close>

theorem failed_call_not_cached:
  assumes miss: "fst (lru_get (MCP_CACHE_TTL_MS env) (now_get w) (cacheKey H args) (cache s)) = None"
    and throws: "research w (researchOptions args) = Inl e"
    and run: "deepResearch_run env H w args s = (r, s')"
  shows "cache s' = snd (lru_get (MCP_CACHE_TTL_MS env) (now_get w) (cacheKey H args) (cache s))
       \<and> cache s' = lru_delete (cacheKey H args) (cache s)
       \<and> map_of (cache s') (cacheKey H args) = None
       \<and> (map_of (cache s) (cacheKey H args) = None \<longrightarrow> cache s' = cache s)
       \<and> (\<forall>w' args'. keyObject args' = keyObject args \<longrightarrow>
            researchCalls (snd (deepResearch_run env H w' args' s')) =
              researchCalls s' @ [researchOptions args'])"
proof -
  have s': "s' = s\<lparr> cache := lru_delete (cacheKey H args) (cache s),
           researchCalls := researchCalls s @ [researchOptions args] \<rparr>"
    using run by (simp add: run_miss_throw[OF miss throws])
  have c: "cache s' = lru_delete (cacheKey H args) (cache s)"
    by (simp add: s')
  have absent: "map_of (cache s') (cacheKey H args) = None"
    by (simp add: c map_of_lru_delete_same)
  have again: "researchCalls (snd (deepResearch_run env H w' args' s')) =
              researchCalls s' @ [researchOptions args']"
    if "keyObject args' = keyObject args" for w' args'
  proof -
    have "cacheKey H args' = cacheKey H args"
      using that by (simp add: cacheKey_def)
    then have "fst (lru_get (MCP_CACHE_TTL_MS env) (now_get w') (cacheKey H args') (cache s')) = None"
      using absent by (simp add: lru_get_absent)
    then show ?thesis by (rule run_miss_researchCalls)
  qed
  show ?thesis
    using c absent again lru_get_miss[OF miss] by (simp add: lru_delete_absent)
qed

theorem failed_call_not_cached_witness:
  "research (failingWorld 0) (researchOptions (exampleArgs (lit ''q''))) =
      Inl (Error (lit ''quota exceeded''))
   \<and> cache (snd (deepResearch_run env0 (\<lambda>t. t) (failingWorld 0) (exampleArgs (lit ''q''))
        initialState)) = []
   \<and> researchCalls (snd (deepResearch_run env0 (\<lambda>t. t) (failingWorld 1) (exampleArgs (lit ''q''))
        (snd (deepResearch_run env0 (\<lambda>t. t) (failingWorld 0) (exampleArgs (lit ''q''))
           initialState)))) =
       [researchOptions (exampleArgs (lit ''q'')), researchOptions (exampleArgs (lit ''q''))]"
proof -
  have miss: "fst (lru_get (MCP_CACHE_TTL_MS env0) (now_get (failingWorld 0))
        (cacheKey (\<lambda>t. t) (exampleArgs (lit ''q''))) (cache initialState)) = None"
    by (simp add: lru_get_def initialState_def)
  have throws: "research (failingWorld 0) (researchOptions (exampleArgs (lit ''q''))) =
      Inl (Error (lit ''quota exceeded''))"
    by (simp add: failingWorld_def exampleWorld_def)
  have calls: "researchCalls (snd (deepResearch_run env0 (\<lambda>t. t) (failingWorld 0)
      (exampleArgs (lit ''q'')) initialState)) = [researchOptions (exampleArgs (lit ''q''))]"
    using run_miss_researchCalls[OF miss] by (simp add: initialState_def)
  have empty: "lru_delete (cacheKey (\<lambda>t. t) (exampleArgs (lit ''q''))) (cache initialState) = []"
    by (simp add: initialState_def lru_delete_def)
  from failed_call_not_cached[OF miss throws surjective_pairing]
  have "cache (snd (deepResearch_run env0 (\<lambda>t. t) (failingWorld 0) (exampleArgs (lit ''q''))
        initialState)) = lru_delete (cacheKey (\<lambda>t. t) (exampleArgs (lit ''q''))) (cache initialState)"
    and "researchCalls (snd (deepResearch_run env0 (\<lambda>t. t) (failingWorld 1) (exampleArgs (lit ''q''))
        (snd (deepResearch_run env0 (\<lambda>t. t) (failingWorld 0) (exampleArgs (lit ''q''))
           initialState)))) =
       researchCalls (snd (deepResearch_run env0 (\<lambda>t. t) (failingWorld 0) (exampleArgs (lit ''q''))
           initialState)) @ [researchOptions (exampleArgs (lit ''q''))]"
    by blast+
  then show ?thesis
    using throws calls empty by simp
qed

text \<open>
  C10. On the success path, inline or offloaded, the result's learnings and visited URLs
  are the pipeline's, and the two counts are the lengths of these lists.
\<close>

theorem success_metadata_from_pipeline:
  assumes "fst (lru_get (MCP_CACHE_TTL_MS env) (now_get w) (cacheKey H args) (cache s)) = None"
    and "research w (researchOptions args) = Inr result"
    and "deepResearch_run env H w args s = (r, s')"
  shows "Metadata.learnings (metadata r) = ResearchResult.learnings result
       \<and> Metadata.visitedUrls (metadata r) = ResearchResult.visitedUrls result
       \<and> totalLearnings (stats (metadata r)) = length (Metadata.learnings (metadata r))
       \<and> totalSources (stats (metadata r)) = length (Metadata.visitedUrls (metadata r))"
proof -
  have "r = fst (deliver env w (cacheKey H args) (ToolArgs.query args) result
      (s\<lparr> cache := lru_delete (cacheKey H args) (cache s),
          researchCalls := researchCalls s @ [researchOptions args] \<rparr>))"
    using assms(2,3) by (simp add: run_miss[OF assms(1)] Let_def)
  then show ?thesis by (simp add: deliver_metadata)
qed

theorem success_metadata_from_pipeline_witness:
  "fst (lru_get (MCP_CACHE_TTL_MS env0) (now_get (exampleWorld 0 5 (lit ''report'')))
        (cacheKey (\<lambda>t. t) (exampleArgs (lit ''q''))) (cache initialState)) = None
   \<and> research (exampleWorld 0 5 (lit ''report'')) (researchOptions (exampleArgs (lit ''q'')))
       = Inr (exampleResult (lit ''report''))
   \<and> Metadata.learnings (metadata (fst (deepResearch_run env0 (\<lambda>t. t)
         (exampleWorld 0 5 (lit ''report'')) (exampleArgs (lit ''q'')) initialState)))
       = [lit ''a learning'']
   \<and> totalSources (stats (metadata (fst (deepResearch_run env0 (\<lambda>t. t)
         (exampleWorld 0 5 (lit ''report'')) (exampleArgs (lit ''q'')) initialState)))) = 2"
proof -
  have miss: "fst (lru_get (MCP_CACHE_TTL_MS env0) (now_get (exampleWorld 0 5 (lit ''report'')))
        (cacheKey (\<lambda>t. t) (exampleArgs (lit ''q''))) (cache initialState)) = None"
    by (simp add: lru_get_def initialState_def)
  have ok: "research (exampleWorld 0 5 (lit ''report'')) (researchOptions (exampleArgs (lit ''q'')))
       = Inr (exampleResult (lit ''report''))"
    by (simp add: exampleWorld_def)
  show ?thesis
    using success_metadata_from_pipeline[OF miss ok surjective_pairing] miss ok
    by (simp add: exampleResult_def)
qed

subsection \<open>The key check and the session registry\<close>

lemma lit_eq_iff [simp]: "lit a = lit b \<longleftrightarrow> a = b"
proof -
  have "inj (of_char :: char \<Rightarrow> nat)"
    by (rule injI) simp
  then show ?thesis
    by (simp add: lit_def inj_map_eq_map)
qed

lemma replaceFirst_prefix: "pat \<noteq> [] \<Longrightarrow> replaceFirst pat rep (pat @ t) = rep @ t"
  by (cases pat) simp_all

lemma apiKeyAuth_no_key:
  "MCP_API_KEY env = None \<or> MCP_API_KEY env = Some [] \<Longrightarrow> apiKeyAuth env req = Next"
  by (auto simp: apiKeyAuth_def)

lemma apiKeyAuth_key:
  "MCP_API_KEY env = Some k \<Longrightarrow> k \<noteq> [] \<Longrightarrow>
   apiKeyAuth env req =
     (if providedKeyOf req = Some k then Next else Responded 401 (ErrorBody (lit ''Unauthorized'')))"
  by (simp add: apiKeyAuth_def)

lemma app_health:
  "bodyFault req = None \<Longrightarrow> routed (lit ''GET'') (lit ''/health'') req \<Longrightarrow>
   app env uuid tr req reg = (Respond 200 (HealthBody (lit ''ok'') (lit ''http'') (lit ''1.0.0'')), reg)"
  by (simp add: app_def health_def)

lemma app_mcp:
  assumes "bodyFault req = None" and "routed (lit ''POST'') (lit ''/mcp'') req"
  shows "app env uuid tr req reg =
     (case apiKeyAuth env req of
        Responded status body \<Rightarrow> (Respond status body, reg)
      | Next \<Rightarrow> (McpRequest, reg))"
proof -
  have "\<not> routed (lit ''GET'') (lit ''/health'') req"
    using assms(2) by (auto simp: routed_def pathMatches_def methodMatches_def lit_def)
  then show ?thesis
    using assms by (simp add: app_def)
qed

lemma app_sse:
  assumes "bodyFault req = None" and "routed (lit ''GET'') (lit ''/sse'') req"
  shows "app env uuid tr req reg =
     (case apiKeyAuth env req of
        Responded status body \<Rightarrow> (Respond status body, reg)
      | Next \<Rightarrow> (SseOpened uuid tr, reg(uuid \<mapsto> tr)))"
proof -
  have "\<not> routed (lit ''GET'') (lit ''/health'') req" "\<not> routed (lit ''POST'') (lit ''/mcp'') req"
    "\<not> routed (lit ''GET'') (lit ''/mcp'') req" "\<not> routed (lit ''DELETE'') (lit ''/mcp'') req"
    using assms(2) by (auto simp: routed_def pathMatches_def methodMatches_def lit_def)
  then show ?thesis
    using assms by (simp add: app_def)
qed

lemma app_messages:
  assumes "bodyFault req = None" and "routed (lit ''POST'') (lit ''/messages'') req"
  shows "app env uuid tr req reg =
     (case apiKeyAuth env req of
        Responded status body \<Rightarrow> (Respond status body, reg)
      | Next \<Rightarrow>
          (case sessionId req of
             None \<Rightarrow> (Respond 404 (ErrorBody (lit ''Session not found'')), reg)
           | Some sid \<Rightarrow>
               (case reg sid of
                  None \<Rightarrow> (Respond 404 (ErrorBody (lit ''Session not found'')), reg)
                | Some t \<Rightarrow> (PostMessage t, reg))))"
proof -
  have "\<not> routed (lit ''GET'') (lit ''/health'') req" "\<not> routed (lit ''POST'') (lit ''/mcp'') req"
    "\<not> routed (lit ''GET'') (lit ''/mcp'') req" "\<not> routed (lit ''DELETE'') (lit ''/mcp'') req"
    "\<not> routed (lit ''GET'') (lit ''/sse'') req"
    using assms(2) by (auto simp: routed_def pathMatches_def methodMatches_def lit_def)
  then show ?thesis
    using assms by (simp add: app_def)
qed

lemma routed_example:
  "routed m p (exampleRequest m p\<lparr>x_api_key := x, authorization := a, sessionId := s\<rparr>)
     \<longleftrightarrow> toLowerCase p = p \<or> toLowerCase p = p @ [47]"
  by (simp add: routed_def methodMatches_def pathMatches_def exampleRequest_def)

text \<open>
  C7. The claim: with a key configured, a request whose provided key, the \<open>x-api-key\<close>
  header or the Bearer authorization, is absent or differs from the key is answered 401.
  With the key \<open>secret\<close>, a request without the key header and with the authorization
  header \<open>sBearer ecret\<close>, which is no Bearer authorization and is not the key, passes
  the check and reaches the handler of \<open>POST /mcp\<close>: the first \<open>Bearer \<close> is cut out
  of the header wherever it stands.
\<close>

theorem bearer_removed_anywhere:
  "x_api_key ((exampleRequest (lit ''POST'') (lit ''/mcp''))\<lparr>authorization := Some (lit ''sBearer ecret'')\<rparr>) = None
   \<and> MCP_API_KEY keyedEnv = Some (lit ''secret'')
   \<and> providedKeyOf ((exampleRequest (lit ''POST'') (lit ''/mcp''))\<lparr>authorization := Some (lit ''sBearer ecret'')\<rparr>)
       = Some (lit ''secret'')
   \<and> apiKeyAuth keyedEnv
        ((exampleRequest (lit ''POST'') (lit ''/mcp''))\<lparr>authorization := Some (lit ''sBearer ecret'')\<rparr>) = Next
   \<and> app keyedEnv (lit ''u1'') 7
        ((exampleRequest (lit ''POST'') (lit ''/mcp''))\<lparr>authorization := Some (lit ''sBearer ecret'')\<rparr>)
        Map.empty = (McpRequest, Map.empty)"
proof -
  let ?req = "(exampleRequest (lit ''POST'') (lit ''/mcp''))\<lparr>authorization := Some (lit ''sBearer ecret'')\<rparr>"
  have key: "MCP_API_KEY keyedEnv = Some (lit ''secret'')" "lit ''secret'' \<noteq> []"
    by (simp_all add: keyedEnv_def lit_def)
  have provided: "providedKeyOf ?req = Some (lit ''secret'')"
    by (simp add: providedKeyOf_def exampleRequest_def lit_def)
  have auth: "apiKeyAuth keyedEnv ?req = Next"
    by (simp add: apiKeyAuth_key[OF key] provided)
  have r: "bodyFault ?req = None" "routed (lit ''POST'') (lit ''/mcp'') ?req"
    by (simp_all add: exampleRequest_def routed_def methodMatches_def pathMatches_def
        toLowerCase_def lit_def)
  have handled: "app keyedEnv (lit ''u1'') 7 ?req Map.empty = (McpRequest, Map.empty)"
    by (simp add: app_mcp[OF r] auth)
  have nokey: "x_api_key ?req = None"
    by (simp add: exampleRequest_def)
  show ?thesis
    using nokey key(1) provided auth handled by (intro conjI)
qed


text \<open>
  C8. The claim: opening a streaming connection registers exactly one session record
  under a freshly generated unique identifier. The identifier is whatever
  \<open>randomUUID()\<close> returns, stored without a look at the registry: where it is already
  registered, the record of the open session is overwritten, no record is added, and
  the \<open>close\<close> of the older connection removes the record of the newer one.
\<close>

theorem registered_uuid_counterexample:
  "app env0 (lit ''u1'') 8 (exampleRequest (lit ''GET'') (lit ''/sse'')) [lit ''u1'' \<mapsto> 7]
      = (SseOpened (lit ''u1'') 8, [lit ''u1'' \<mapsto> 8])
   \<and> dom [lit ''u1'' \<mapsto> (8::nat)] = dom [lit ''u1'' \<mapsto> (7::nat)]
   \<and> sseClose (lit ''u1'') [lit ''u1'' \<mapsto> 8] = Map.empty
   \<and> app env0 (lit ''u2'') 9
        ((exampleRequest (lit ''POST'') (lit ''/messages''))\<lparr>sessionId := Some (lit ''u1'')\<rparr>)
        (sseClose (lit ''u1'') [lit ''u1'' \<mapsto> 8])
      = (Respond 404 (ErrorBody (lit ''Session not found'')), Map.empty)"
proof -
  let ?open = "exampleRequest (lit ''GET'') (lit ''/sse'')"
  let ?msg = "(exampleRequest (lit ''POST'') (lit ''/messages''))\<lparr>sessionId := Some (lit ''u1'')\<rparr>"
  have auth: "apiKeyAuth env0 r = Next" for r
    by (simp add: apiKeyAuth_def env0_def)
  have o: "bodyFault ?open = None" "routed (lit ''GET'') (lit ''/sse'') ?open"
    by (simp_all add: exampleRequest_def routed_def methodMatches_def pathMatches_def
        toLowerCase_def lit_def)
  have m: "bodyFault ?msg = None" "routed (lit ''POST'') (lit ''/messages'') ?msg"
    by (simp_all add: exampleRequest_def routed_def methodMatches_def pathMatches_def
        toLowerCase_def lit_def)
  have sid: "sessionId ?msg = Some (lit ''u1'')"
    by simp
  have a: "app env0 (lit ''u1'') 8 ?open [lit ''u1'' \<mapsto> 7]
      = (SseOpened (lit ''u1'') 8, [lit ''u1'' \<mapsto> 8])"
    by (simp add: app_sse[OF o] auth)
  have c: "sseClose (lit ''u1'') [lit ''u1'' \<mapsto> 8] = Map.empty"
    by (simp add: sseClose_def)
  have d: "app env0 (lit ''u2'') 9 ?msg (sseClose (lit ''u1'') [lit ''u1'' \<mapsto> 8])
      = (Respond 404 (ErrorBody (lit ''Session not found'')), Map.empty)"
    by (simp add: app_messages[OF m] auth sid c)
  show ?thesis
    using a c d by simp
qed

text \<open>
  C8, amended. A \<open>GET /sse\<close> that passes the key check stores the new transport under
  the identifier \<open>randomUUID()\<close> returns and changes no other record; where that
  identifier is not yet registered, this adds exactly one record, and the \<open>close\<close>
  event gives the registry of before back. The \<open>close\<close> event removes the record of
  its identifier and no other. A \<open>POST /messages\<close> whose \<open>sessionId\<close> is absent, not
  registered or already closed is answered 404; one whose \<open>sessionId\<close> is registered is
  handed to the transport of that session.
\<close>

theorem sse_session_registry:
  "(bodyFault req = None \<and> routed (lit ''GET'') (lit ''/sse'') req \<and> apiKeyAuth env req = Next \<longrightarrow>
        app env uuid tr req sseTransports = (SseOpened uuid tr, sseTransports(uuid \<mapsto> tr))
        \<and> snd (app env uuid tr req sseTransports) uuid = Some tr
        \<and> (\<forall>sid. sid \<noteq> uuid \<longrightarrow> snd (app env uuid tr req sseTransports) sid = sseTransports sid)
        \<and> (sseTransports uuid = None \<longrightarrow>
              dom (snd (app env uuid tr req sseTransports)) - dom sseTransports = {uuid}
              \<and> (finite (dom sseTransports) \<longrightarrow>
                    card (dom (snd (app env uuid tr req sseTransports)))
                      = card (dom sseTransports) + 1)
              \<and> sseClose uuid (snd (app env uuid tr req sseTransports)) = sseTransports))
   \<and> sseClose uuid sseTransports uuid = None
   \<and> (\<forall>sid. sid \<noteq> uuid \<longrightarrow> sseClose uuid sseTransports sid = sseTransports sid)
   \<and> (bodyFault req = None \<and> routed (lit ''POST'') (lit ''/messages'') req
       \<and> apiKeyAuth env req = Next \<longrightarrow>
        (\<forall>sid. sessionId req = Some sid \<and> sseTransports sid = None \<longrightarrow>
           app env uuid tr req sseTransports =
             (Respond 404 (ErrorBody (lit ''Session not found'')), sseTransports))
        \<and> (sessionId req = None \<longrightarrow>
           app env uuid tr req sseTransports =
             (Respond 404 (ErrorBody (lit ''Session not found'')), sseTransports))
        \<and> (\<forall>sid t. sessionId req = Some sid \<and> sseTransports sid = Some t \<longrightarrow>
           app env uuid tr req sseTransports = (PostMessage t, sseTransports))
        \<and> (\<forall>sid. sessionId req = Some sid \<longrightarrow>
           app env uuid tr req (sseClose sid sseTransports) =
             (Respond 404 (ErrorBody (lit ''Session not found'')), sseClose sid sseTransports)))"
proof (intro conjI)
  show "bodyFault req = None \<and> routed (lit ''GET'') (lit ''/sse'') req \<and> apiKeyAuth env req = Next \<longrightarrow>
        app env uuid tr req sseTransports = (SseOpened uuid tr, sseTransports(uuid \<mapsto> tr))
        \<and> snd (app env uuid tr req sseTransports) uuid = Some tr
        \<and> (\<forall>sid. sid \<noteq> uuid \<longrightarrow> snd (app env uuid tr req sseTransports) sid = sseTransports sid)
        \<and> (sseTransports uuid = None \<longrightarrow>
              dom (snd (app env uuid tr req sseTransports)) - dom sseTransports = {uuid}
              \<and> (finite (dom sseTransports) \<longrightarrow>
                    card (dom (snd (app env uuid tr req sseTransports)))
                      = card (dom sseTransports) + 1)
              \<and> sseClose uuid (snd (app env uuid tr req sseTransports)) = sseTransports)"
  proof (intro impI)
    assume a: "bodyFault req = None \<and> routed (lit ''GET'') (lit ''/sse'') req \<and> apiKeyAuth env req = Next"
    then have eq: "app env uuid tr req sseTransports = (SseOpened uuid tr, sseTransports(uuid \<mapsto> tr))"
      by (simp add: app_sse)
    have fresh: "sseClose uuid (sseTransports(uuid \<mapsto> tr)) = sseTransports"
      if "sseTransports uuid = None"
      using that by (auto simp: sseClose_def)
    have one: "dom (sseTransports(uuid \<mapsto> tr)) - dom sseTransports = {uuid}"
      if "sseTransports uuid = None"
      using that by auto
    have count: "card (dom (sseTransports(uuid \<mapsto> tr))) = card (dom sseTransports) + 1"
      if "sseTransports uuid = None" "finite (dom sseTransports)"
      using that by (simp add: domIff)
    show "app env uuid tr req sseTransports = (SseOpened uuid tr, sseTransports(uuid \<mapsto> tr))
        \<and> snd (app env uuid tr req sseTransports) uuid = Some tr
        \<and> (\<forall>sid. sid \<noteq> uuid \<longrightarrow> snd (app env uuid tr req sseTransports) sid = sseTransports sid)
        \<and> (sseTransports uuid = None \<longrightarrow>
              dom (snd (app env uuid tr req sseTransports)) - dom sseTransports = {uuid}
              \<and> (finite (dom sseTransports) \<longrightarrow>
                    card (dom (snd (app env uuid tr req sseTransports)))
                      = card (dom sseTransports) + 1)
              \<and> sseClose uuid (snd (app env uuid tr req sseTransports)) = sseTransports)"
      unfolding eq using fresh one count by simp
  qed
  show "sseClose uuid sseTransports uuid = None"
    by (simp add: sseClose_def)
  show "\<forall>sid. sid \<noteq> uuid \<longrightarrow> sseClose uuid sseTransports sid = sseTransports sid"
    by (simp add: sseClose_def)
  show "bodyFault req = None \<and> routed (lit ''POST'') (lit ''/messages'') req
       \<and> apiKeyAuth env req = Next \<longrightarrow>
        (\<forall>sid. sessionId req = Some sid \<and> sseTransports sid = None \<longrightarrow>
           app env uuid tr req sseTransports =
             (Respond 404 (ErrorBody (lit ''Session not found'')), sseTransports))
        \<and> (sessionId req = None \<longrightarrow>
           app env uuid tr req sseTransports =
             (Respond 404 (ErrorBody (lit ''Session not found'')), sseTransports))
        \<and> (\<forall>sid t. sessionId req = Some sid \<and> sseTransports sid = Some t \<longrightarrow>
           app env uuid tr req sseTransports = (PostMessage t, sseTransports))
        \<and> (\<forall>sid. sessionId req = Some sid \<longrightarrow>
           app env uuid tr req (sseClose sid sseTransports) =
             (Respond 404 (ErrorBody (lit ''Session not found'')), sseClose sid sseTransports))"
    by (auto simp: app_messages sseClose_def)
qed


theorem sse_session_registry_witness:
  "app env0 (lit ''u1'') 7 (exampleRequest (lit ''GET'') (lit ''/sse'')) Map.empty
      = (SseOpened (lit ''u1'') 7, [lit ''u1'' \<mapsto> 7])
   \<and> card (dom (snd (app env0 (lit ''u1'') 7 (exampleRequest (lit ''GET'') (lit ''/sse'')) Map.empty))) = 1
   \<and> sseClose (lit ''u1'')
        (snd (app env0 (lit ''u1'') 7 (exampleRequest (lit ''GET'') (lit ''/sse'')) Map.empty))
      = Map.empty
   \<and> app env0 (lit ''u2'') 8
        ((exampleRequest (lit ''POST'') (lit ''/messages''))\<lparr>sessionId := Some (lit ''u1'')\<rparr>)
        [lit ''u1'' \<mapsto> 7]
      = (PostMessage 7, [lit ''u1'' \<mapsto> 7])
   \<and> fst (app env0 (lit ''u2'') 8
        ((exampleRequest (lit ''POST'') (lit ''/messages''))\<lparr>sessionId := Some (lit ''u9'')\<rparr>)
        [lit ''u1'' \<mapsto> 7])
      = Respond 404 (ErrorBody (lit ''Session not found''))
   \<and> fst (app env0 (lit ''u2'') 8
        ((exampleRequest (lit ''POST'') (lit ''/messages''))\<lparr>sessionId := Some (lit ''u1'')\<rparr>)
        (sseClose (lit ''u1'') [lit ''u1'' \<mapsto> 7]))
      = Respond 404 (ErrorBody (lit ''Session not found''))"
proof -
  let ?open = "exampleRequest (lit ''GET'') (lit ''/sse'')"
  let ?msg = "\<lambda>sid. (exampleRequest (lit ''POST'') (lit ''/messages''))\<lparr>sessionId := Some sid\<rparr>"
  have auth: "apiKeyAuth env0 r = Next" for r
    by (simp add: apiKeyAuth_def env0_def)
  have o: "bodyFault ?open = None \<and> routed (lit ''GET'') (lit ''/sse'') ?open"
    by (simp add: exampleRequest_def routed_def methodMatches_def pathMatches_def
        toLowerCase_def lit_def)
  have m: "bodyFault (?msg sid) = None \<and> routed (lit ''POST'') (lit ''/messages'') (?msg sid)
      \<and> sessionId (?msg sid) = Some sid" for sid
    by (simp add: exampleRequest_def routed_def methodMatches_def pathMatches_def
        toLowerCase_def lit_def)
  have e: "(Map.empty :: Registry) (lit ''u1'') = None" "finite (dom (Map.empty :: Registry))"
    by simp_all
  note opened = sse_session_registry[of ?open env0 "lit ''u1''" 7 Map.empty]
  have a: "app env0 (lit ''u1'') 7 ?open Map.empty = (SseOpened (lit ''u1'') 7, [lit ''u1'' \<mapsto> 7])"
    using opened o auth by simp
  have b: "card (dom (snd (app env0 (lit ''u1'') 7 ?open Map.empty))) = 1"
    using opened o auth e by simp
  have c: "sseClose (lit ''u1'') (snd (app env0 (lit ''u1'') 7 ?open Map.empty)) = Map.empty"
    using opened o auth e by blast
  have d: "app env0 (lit ''u2'') 8 (?msg (lit ''u1'')) [lit ''u1'' \<mapsto> 7]
      = (PostMessage 7, [lit ''u1'' \<mapsto> 7])"
    using sse_session_registry[of "?msg (lit ''u1'')" env0 "lit ''u2''" 8 "[lit ''u1'' \<mapsto> 7]"]
      m[of "lit ''u1''"] auth by simp
  have f: "fst (app env0 (lit ''u2'') 8 (?msg (lit ''u9'')) [lit ''u1'' \<mapsto> 7])
      = Respond 404 (ErrorBody (lit ''Session not found''))"
    using sse_session_registry[of "?msg (lit ''u9'')" env0 "lit ''u2''" 8 "[lit ''u1'' \<mapsto> 7]"]
      m[of "lit ''u9''"] auth by simp
  have g: "fst (app env0 (lit ''u2'') 8 (?msg (lit ''u1'')) (sseClose (lit ''u1'') [lit ''u1'' \<mapsto> 7]))
      = Respond 404 (ErrorBody (lit ''Session not found''))"
    using sse_session_registry[of "?msg (lit ''u1'')" env0 "lit ''u2''" 8 "[lit ''u1'' \<mapsto> 7]"]
      m[of "lit ''u1''"] auth by simp
  show ?thesis
    using a b c d f g by (intro conjI)
qed

subsection \<open>The cache key\<close>

lemma unhexDigit_hexDigit: "d < 16 \<Longrightarrow> unhexDigit (hexDigit d) = d"
  by (simp add: unhexDigit_def hexDigit_def)

lemma hex4:
  assumes "c < 65536"
  shows "4096 * (c div 4096 mod 16) + 256 * (c div 256 mod 16) + 16 * (c div 16 mod 16)
           + c mod 16 = (c::nat)"
proof -
  have a: "c = 16 * (c div 16) + c mod 16"
    by simp
  have b: "c div 16 = 16 * (c div 16 div 16) + c div 16 mod 16"
    by simp
  have b': "c div 16 div 16 = c div 256"
    by (simp add: div_mult2_eq)
  have d: "c div 256 = 16 * (c div 256 div 16) + c div 256 mod 16"
    by simp
  have d': "c div 256 div 16 = c div 4096"
    by (simp add: div_mult2_eq)
  have e: "c div 4096 mod 16 = c div 4096"
    using assms by simp
  show ?thesis
    using a b b' d d' e by linarith
qed

lemma unquote_unicodeEscape:
  assumes "c < 65536"
  shows "unquoteUnits (unicodeEscape c @ t) = map_option (apfst ((#) c)) (unquoteUnits t)"
proof -
  have "unquoteUnits (unicodeEscape c @ t) =
      map_option (apfst ((#) (4096 * (c div 4096 mod 16) + 256 * (c div 256 mod 16)
         + 16 * (c div 16 mod 16) + c mod 16))) (unquoteUnits t)"
    by (simp add: unicodeEscape_def unhexDigit_hexDigit del: mod_less)
  then show ?thesis
    by (simp only: hex4[OF assms])
qed

lemma unquote_quoteUnit:
  "unquoteUnits (quoteUnit c @ t) = map_option (apfst ((#) c)) (unquoteUnits t)"
proof (cases "c < 32 \<or> isLeadSurrogate c \<or> isTrailSurrogate c")
  case True
  then have "c < 65536" by (auto simp: isLeadSurrogate_def isTrailSurrogate_def)
  then show ?thesis
    by (simp add: quoteUnit_def unquote_unicodeEscape unescape_def)
next
  case False
  then show ?thesis by (simp add: quoteUnit_def unescape_def)
qed

lemma unquote_quoteUnits: "unquoteUnits (quoteUnits s @ 34 # r) = Some (s, r)"
proof (induction s rule: quoteUnits.induct)
  case 1
  show ?case by simp
next
  case (2 c)
  show ?case by (simp add: unquote_quoteUnit)
next
  case (3 c d cs)
  show ?case
  proof (cases "isLeadSurrogate c \<and> isTrailSurrogate d")
    case True
    then have "quoteUnits (c # d # cs) = c # d # quoteUnits cs"
      by simp
    moreover have "c \<noteq> 34 \<and> c \<noteq> 92 \<and> d \<noteq> 34 \<and> d \<noteq> 92"
      using True by (auto simp: isLeadSurrogate_def isTrailSurrogate_def)
    ultimately show ?thesis
      using 3(1)[OF True] by simp
  next
    case False
    then have "quoteUnits (c # d # cs) = quoteUnit c @ quoteUnits (d # cs)"
      by (simp only: quoteUnits.simps if_False)
    then show ?thesis
      using 3(2)[OF False] by (simp add: unquote_quoteUnit del: quoteUnits.simps)
  qed
qed

lemma QuoteJSONString_cancel:
  "QuoteJSONString a @ r1 = QuoteJSONString b @ r2 \<Longrightarrow> a = b \<and> r1 = r2"
proof -
  assume "QuoteJSONString a @ r1 = QuoteJSONString b @ r2"
  then have "quoteUnits a @ 34 # r1 = quoteUnits b @ 34 # r2"
    by (simp add: QuoteJSONString_def)
  then have "unquoteUnits (quoteUnits a @ 34 # r1) = unquoteUnits (quoteUnits b @ 34 # r2)"
    by simp
  then show ?thesis by (simp add: unquote_quoteUnits)
qed

lemma natToString_digits: "list_all isDigit (natToString n) \<and> natToString n \<noteq> []"
proof (induction n rule: natToString.induct)
  case (1 n)
  show ?case
  proof (cases "n < 10")
    case True
    then show ?thesis
      by (subst (1 2) natToString.simps) (simp add: isDigit_def)
  next
    case False
    have "n mod 10 < 10" by simp
    then have "isDigit (48 + n mod 10)"
      unfolding isDigit_def by linarith
    with False 1 show ?thesis
      by (subst (1 2) natToString.simps) simp
  qed
qed

lemma digitsValue_append:
  "digitsValue acc (xs @ ys) = digitsValue (digitsValue acc xs) ys"
  by (induction xs arbitrary: acc) simp_all

lemma digitsValue_natToString: "digitsValue 0 (natToString n) = int n"
proof (induction n rule: natToString.induct)
  case (1 n)
  show ?case
  proof (cases "n < 10")
    case True
    then show ?thesis
      by (subst natToString.simps) simp
  next
    case False
    have "int (n div 10) * 10 + int (n mod 10) = int n"
      by (metis mult.commute of_nat_add of_nat_mult mult_div_mod_eq of_nat_numeral)
    with False 1 show ?thesis
      by (subst natToString.simps) (simp add: digitsValue_append)
  qed
qed

lemma natToString_inj: "natToString a = natToString b \<Longrightarrow> a = b"
  by (metis digitsValue_natToString of_nat_eq_iff)

lemma numberToString_chars: "list_all isNumChar (numberToString i)"
  using natToString_digits
  by (auto simp: numberToString_def isNumChar_def list_all_iff)

lemma natToString_not_minus: "natToString n \<noteq> 45 # t"
proof
  assume "natToString n = 45 # t"
  with natToString_digits[of n] have "isDigit 45" by simp
  then show False by (simp add: isDigit_def)
qed

lemma numberToString_inj: "numberToString a = numberToString b \<Longrightarrow> a = b"
proof -
  assume eq: "numberToString a = numberToString b"
  show ?thesis
  proof (cases "a < 0")
    case True
    show ?thesis
    proof (cases "b < 0")
      case b: True
      with True eq have "nat (- a) = nat (- b)"
        by (auto simp: numberToString_def dest: natToString_inj)
      with True b show ?thesis by simp
    next
      case False
      with True eq have "natToString (nat b) = 45 # natToString (nat (- a))"
        by (simp add: numberToString_def)
      then show ?thesis
        using natToString_not_minus by blast
    qed
  next
    case False
    show ?thesis
    proof (cases "b < 0")
      case True
      with False eq have "natToString (nat a) = 45 # natToString (nat (- b))"
        by (simp add: numberToString_def)
      then show ?thesis
        using natToString_not_minus by blast
    next
      case b: False
      with False eq have "nat a = nat b"
        by (auto simp: numberToString_def dest: natToString_inj)
      with False b show ?thesis by simp
    qed
  qed
qed

lemma numberToString_cancel:
  assumes "numberToString a @ 44 # r1 = numberToString b @ 44 # r2"
  shows "a = b \<and> r1 = r2"
proof -
  have tw: "takeWhile isNumChar (numberToString i @ 44 # r) = numberToString i" for i r
    using numberToString_chars[of i]
    by (simp add: takeWhile_append2 list_all_iff isNumChar_def isDigit_def)
  have "numberToString a = numberToString b"
    using arg_cong[OF assms, of "takeWhile isNumChar"] by (simp only: tw)
  with assms show ?thesis
    by (simp add: numberToString_inj)
qed

lemma joinComma_Cons: "joinComma (x # xs) = x @ (if xs = [] then [] else 44 # joinComma xs)"
  by (cases xs) simp_all

lemma joinComma_cancel:
  "joinComma (map QuoteJSONString xs) @ 93 # r1 = joinComma (map QuoteJSONString ys) @ 93 # r2
   \<Longrightarrow> xs = ys \<and> r1 = r2"
proof (induction xs arbitrary: ys)
  case Nil
  then show ?case
    by (cases ys) (simp_all add: joinComma_Cons QuoteJSONString_def)
next
  case (Cons x t)
  show ?case
  proof (cases ys)
    case Nil
    with Cons.prems show ?thesis
      by (simp add: joinComma_Cons QuoteJSONString_def)
  next
    case (Cons y u)
    let ?rest = "\<lambda>zs r. (if zs = [] then [] else 44 # joinComma (map QuoteJSONString zs)) @ 93 # r"
    have "QuoteJSONString x @ ?rest t r1 = QuoteJSONString y @ ?rest u r2"
      using Cons.prems Cons by (simp add: joinComma_Cons)
    then have xy: "x = y" and rest: "?rest t r1 = ?rest u r2"
      using QuoteJSONString_cancel by blast+
    show ?thesis
    proof (cases "t = []")
      case True
      with rest xy Cons show ?thesis
        by (cases "u = []") simp_all
    next
      case False
      with rest have "u \<noteq> []"
        by (cases "u = []") simp_all
      with rest False have "joinComma (map QuoteJSONString t) @ 93 # r1
          = joinComma (map QuoteJSONString u) @ 93 # r2"
        by simp
      from Cons.IH[OF this] xy Cons show ?thesis by simp
    qed
  qed
qed

lemma numberProperty_cancel:
  assumes eq: "numberProperty name v @ 44 # 34 # c1 # r1 = numberProperty name v' @ 44 # 34 # c2 # r2"
    and name: "quoteUnits name = n0 # ns" and c1: "n0 \<noteq> c1" and c2: "n0 \<noteq> c2"
  shows "v = v' \<and> c1 # r1 = c2 # r2"
proof (cases v)
  case None
  show ?thesis
  proof (cases v')
    case n: None
    with None eq show ?thesis by (simp add: numberProperty_def)
  next
    case (Some m)
    with None eq name c1 show ?thesis
      by (simp add: numberProperty_def QuoteJSONString_def)
  qed
next
  case (Some n)
  show ?thesis
  proof (cases v')
    case None
    with Some eq name c2 show ?thesis
      by (simp add: numberProperty_def QuoteJSONString_def)
  next
    case m: (Some m)
    from Some m eq have "numberToString n @ 44 # 34 # c1 # r1 = numberToString m @ 44 # 34 # c2 # r2"
      by (simp add: numberProperty_def)
    from numberToString_cancel[OF this] Some m show ?thesis by simp
  qed
qed

lemma quoteUnits_plain:
  "list_all (\<lambda>c. 32 \<le> c \<and> c < 55296 \<and> c \<noteq> 34 \<and> c \<noteq> 92) s \<Longrightarrow> quoteUnits s = s"
proof (induction s rule: quoteUnits.induct)
  case 1
  show ?case by simp
next
  case (2 c)
  then show ?case
    by (simp add: quoteUnit_def isLeadSurrogate_def isTrailSurrogate_def)
next
  case (3 c d cs)
  from 3(3) have c: "quoteUnit c = [c]" and nl: "\<not> isLeadSurrogate c"
    by (simp_all add: quoteUnit_def isLeadSurrogate_def isTrailSurrogate_def)
  from nl have "quoteUnits (c # d # cs) = quoteUnit c @ quoteUnits (d # cs)"
    by (simp only: quoteUnits.simps simp_thms if_False)
  moreover have "quoteUnits (d # cs) = d # cs"
    using 3(2) 3(3) nl by simp
  ultimately show ?case
    using c by simp
qed

lemma quoteUnits_names:
  "quoteUnits (lit ''depth'') = 100 # lit ''epth''"
  "quoteUnits (lit ''breadth'') = 98 # lit ''readth''"
  "quoteUnits (lit ''existingLearnings'') = 101 # lit ''xistingLearnings''"
  "quoteUnits (lit ''query'') = lit ''query''"
proof -
  have plain: "quoteUnits (lit n) = lit n"
    if "list_all (\<lambda>c. 32 \<le> c \<and> c < 55296 \<and> c \<noteq> 34 \<and> c \<noteq> 92) (lit n)" for n
    using that by (rule quoteUnits_plain)
  have "quoteUnits (lit ''depth'') = lit ''depth''"
    by (rule plain) (simp add: lit_def)
  then show "quoteUnits (lit ''depth'') = 100 # lit ''epth''"
    by (simp add: lit_def del: quoteUnits.simps)
  have "quoteUnits (lit ''breadth'') = lit ''breadth''"
    by (rule plain) (simp add: lit_def)
  then show "quoteUnits (lit ''breadth'') = 98 # lit ''readth''"
    by (simp add: lit_def del: quoteUnits.simps)
  have "quoteUnits (lit ''existingLearnings'') = lit ''existingLearnings''"
    by (rule plain) (simp add: lit_def)
  then show "quoteUnits (lit ''existingLearnings'') = 101 # lit ''xistingLearnings''"
    by (simp add: lit_def del: quoteUnits.simps)
  show "quoteUnits (lit ''query'') = lit ''query''"
    by (rule plain) (simp add: lit_def)
qed

lemma breadth_property_head: "\<exists>c r. numberProperty (lit ''breadth'') v @ 44 # 34 # 101 # t = 44 # 34 # c # r \<and> c \<noteq> 100"
  by (cases v) (simp_all add: numberProperty_def QuoteJSONString_def quoteUnits_names)

lemma JSON_stringify_inj:
  assumes "JSON_stringify x = JSON_stringify y"
  shows "x = y"
proof -
  obtain q d b ls where x: "x = (q, d, b, ls)" by (cases x) auto
  obtain q' d' b' ls' where y: "y = (q', d', b', ls')" by (cases y) auto
  let ?r3 = "\<lambda>zs. lit ''xistingLearnings'' @ 34 # 58 # 91 # joinComma (map QuoteJSONString zs) @ [93, 125]"
  let ?r2 = "\<lambda>v zs. numberProperty (lit ''breadth'') v @ 44 # 34 # 101 # ?r3 zs"
  have form: "JSON_stringify (q, d, b, ls) =
      Inr (123 # QuoteJSONString (lit ''query'') @ 58
           # (QuoteJSONString q @ numberProperty (lit ''depth'') d @ ?r2 b ls))" for q d b ls
    by (simp add: JSON_stringify_def QuoteJSONString_def[of "lit ''existingLearnings''"]
        quoteUnits_names del: quoteUnits.simps)
  have "QuoteJSONString q @ numberProperty (lit ''depth'') d @ ?r2 b ls
      = QuoteJSONString q' @ numberProperty (lit ''depth'') d' @ ?r2 b' ls'"
    using assms unfolding x y form by simp
  then have q: "q = q'"
    and 1: "numberProperty (lit ''depth'') d @ ?r2 b ls = numberProperty (lit ''depth'') d' @ ?r2 b' ls'"
    using QuoteJSONString_cancel by blast+
  obtain c1 t1 where t1: "?r2 b ls = 44 # 34 # c1 # t1" "c1 \<noteq> 100" using breadth_property_head by blast
  obtain c2 t2 where t2: "?r2 b' ls' = 44 # 34 # c2 # t2" "c2 \<noteq> 100" using breadth_property_head by blast
  have "numberProperty (lit ''depth'') d @ 44 # 34 # c1 # t1
      = numberProperty (lit ''depth'') d' @ 44 # 34 # c2 # t2"
    using 1 by (simp only: t1 t2)
  from numberProperty_cancel[OF this quoteUnits_names(1)] t1(2) t2(2)
  have d: "d = d'" and "c1 # t1 = c2 # t2"
    by auto
  then have 2: "?r2 b ls = ?r2 b' ls'"
    by (simp only: t1 t2)
  have "b = b' \<and> 101 # ?r3 ls = 101 # ?r3 ls'"
    by (rule numberProperty_cancel[OF 2 quoteUnits_names(2)]) simp_all
  then have b: "b = b'" and "joinComma (map QuoteJSONString ls) @ 93 # [125]
      = joinComma (map QuoteJSONString ls') @ 93 # [125]"
    by simp_all
  then have "ls = ls'"
    using joinComma_cancel by blast
  with q d b show ?thesis by (simp add: x y)
qed

lemma cacheKey_id_inj:
  "cacheKey (\<lambda>t. t) x = cacheKey (\<lambda>t. t) y \<Longrightarrow> keyObject x = keyObject y"
proof -
  assume eq: "cacheKey (\<lambda>t. t) x = cacheKey (\<lambda>t. t) y"
  obtain s where s: "JSON_stringify (keyObject x) = Inr s"
    by (cases "keyObject x") (simp add: JSON_stringify_def)
  obtain t where t: "JSON_stringify (keyObject y) = Inr t"
    by (cases "keyObject y") (simp add: JSON_stringify_def)
  from eq have "s = t"
    by (simp add: cacheKey_def hashKey_def s t)
  then show ?thesis
    using s t JSON_stringify_inj by auto
qed

lemma inputSchema_cong:
  assumes "map_of a = map_of b"
  shows "inputSchema a = inputSchema b"
  unfolding inputSchema_def assms ..

lemma inputSchema_keyObject:
  assumes "inputSchema a = Some x" and "inputSchema b = Some y"
    and "map_of a (lit ''query'') = map_of b (lit ''query'')"
    and "map_of a (lit ''depth'') = map_of b (lit ''depth'')"
    and "map_of a (lit ''breadth'') = map_of b (lit ''breadth'')"
    and "map_of a (lit ''existingLearnings'') = map_of b (lit ''existingLearnings'')"
  shows "keyObject x = keyObject y"
  using assms
  by (auto simp: inputSchema_def keyObject_def split: option.splits)

lemma keyObject_eq_iff:
  "keyObject x = keyObject y \<longleftrightarrow>
     ToolArgs.query x = ToolArgs.query y \<and> ToolArgs.depth x = ToolArgs.depth y
     \<and> ToolArgs.breadth x = ToolArgs.breadth y
     \<and> (case ToolArgs.existingLearnings x of None \<Rightarrow> [] | Some ls \<Rightarrow> ls)
         = (case ToolArgs.existingLearnings y of None \<Rightarrow> [] | Some ls \<Rightarrow> ls)"
  by (simp add: keyObject_def)

text \<open>
  C3. The claim: any difference in a field value gives a different fingerprint. The
  handler puts the empty list in the place of an absent \<open>existingLearnings\<close> before it
  builds the key object: an input without the property and one with the empty array
  have the same key, whatever the digest.
\<close>

theorem absent_learnings_counterexample:
  "inputSchema [(lit ''query'', JStr (lit ''q''))] = Some (exampleArgs (lit ''q''))
   \<and> inputSchema [(lit ''query'', JStr (lit ''q'')), (lit ''existingLearnings'', JArr [])]
       = Some ((exampleArgs (lit ''q''))\<lparr>ToolArgs.existingLearnings := Some []\<rparr>)
   \<and> ToolArgs.existingLearnings (exampleArgs (lit ''q'')) = None
   \<and> ToolArgs.existingLearnings ((exampleArgs (lit ''q''))\<lparr>ToolArgs.existingLearnings := Some []\<rparr>)
       = Some []
   \<and> (\<forall>H. cacheKey H (exampleArgs (lit ''q''))
            = cacheKey H ((exampleArgs (lit ''q''))\<lparr>ToolArgs.existingLearnings := Some []\<rparr>))"
proof -
  have a: "inputSchema [(lit ''query'', JStr (lit ''q''))] = Some (exampleArgs (lit ''q''))"
    by (simp add: inputSchema_def z_string_min1_def z_optional_def exampleArgs_def lit_def)
  have b: "inputSchema [(lit ''query'', JStr (lit ''q'')), (lit ''existingLearnings'', JArr [])]
       = Some ((exampleArgs (lit ''q''))\<lparr>ToolArgs.existingLearnings := Some []\<rparr>)"
    by (simp add: inputSchema_def z_string_min1_def z_optional_def z_array_string_def
        exampleArgs_def lit_def)
  have c: "ToolArgs.existingLearnings (exampleArgs (lit ''q'')) = None"
    by (simp add: exampleArgs_def)
  have d: "cacheKey H (exampleArgs (lit ''q''))
            = cacheKey H ((exampleArgs (lit ''q''))\<lparr>ToolArgs.existingLearnings := Some []\<rparr>)" for H
    by (simp add: cacheKey_def keyObject_def exampleArgs_def)
  show ?thesis
    using a b c d by simp
qed

text \<open>
  C3, amended. Two input objects that list the same properties in a different order
  validate to the same arguments and so to the same cache key. Arguments with the same
  \<open>query\<close>, \<open>depth\<close> and \<open>breadth\<close> and the same \<open>existingLearnings\<close>, an absent one
  counting as the empty list, have the same key, whatever their other properties.
  Arguments that differ in one of these have different JSON texts, and their keys are
  the digests of these two texts: the keys differ unless the digest collides on them.
  The probability of such a collision is a property of SHA-256, outside this model.
\<close>

theorem cache_key_of_fields:
  "(distinct (map fst a) \<and> distinct (map fst b) \<and> set a = set b \<longrightarrow>
      inputSchema a = inputSchema b
      \<and> map_option (cacheKey H) (inputSchema a) = map_option (cacheKey H) (inputSchema b))
   \<and> (inputSchema a = Some x \<and> inputSchema b = Some y
       \<and> map_of a (lit ''query'') = map_of b (lit ''query'')
       \<and> map_of a (lit ''depth'') = map_of b (lit ''depth'')
       \<and> map_of a (lit ''breadth'') = map_of b (lit ''breadth'')
       \<and> map_of a (lit ''existingLearnings'') = map_of b (lit ''existingLearnings'') \<longrightarrow>
         cacheKey H x = cacheKey H y)
   \<and> (ToolArgs.query x = ToolArgs.query y \<and> ToolArgs.depth x = ToolArgs.depth y
       \<and> ToolArgs.breadth x = ToolArgs.breadth y
       \<and> (case ToolArgs.existingLearnings x of None \<Rightarrow> [] | Some ls \<Rightarrow> ls)
           = (case ToolArgs.existingLearnings y of None \<Rightarrow> [] | Some ls \<Rightarrow> ls) \<longrightarrow>
         cacheKey H x = cacheKey H y)
   \<and> (ToolArgs.query x \<noteq> ToolArgs.query y \<or> ToolArgs.depth x \<noteq> ToolArgs.depth y
       \<or> ToolArgs.breadth x \<noteq> ToolArgs.breadth y
       \<or> (case ToolArgs.existingLearnings x of None \<Rightarrow> [] | Some ls \<Rightarrow> ls)
           \<noteq> (case ToolArgs.existingLearnings y of None \<Rightarrow> [] | Some ls \<Rightarrow> ls) \<longrightarrow>
        (\<exists>s t. JSON_stringify (keyObject x) = Inr s \<and> JSON_stringify (keyObject y) = Inr t
           \<and> s \<noteq> t \<and> cacheKey H x = H s \<and> cacheKey H y = H t
           \<and> (H s \<noteq> H t \<longrightarrow> cacheKey H x \<noteq> cacheKey H y)))"
proof (intro conjI impI)
  assume "distinct (map fst a) \<and> distinct (map fst b) \<and> set a = set b"
  then have "map_of a = map_of b"
    by (simp add: map_of_inject_set)
  then show eq: "inputSchema a = inputSchema b"
    by (rule inputSchema_cong)
  show "map_option (cacheKey H) (inputSchema a) = map_option (cacheKey H) (inputSchema b)"
    by (simp add: eq)
next
  assume "inputSchema a = Some x \<and> inputSchema b = Some y
       \<and> map_of a (lit ''query'') = map_of b (lit ''query'')
       \<and> map_of a (lit ''depth'') = map_of b (lit ''depth'')
       \<and> map_of a (lit ''breadth'') = map_of b (lit ''breadth'')
       \<and> map_of a (lit ''existingLearnings'') = map_of b (lit ''existingLearnings'')"
  then have "keyObject x = keyObject y"
    using inputSchema_keyObject by blast
  then show "cacheKey H x = cacheKey H y"
    by (simp add: cacheKey_def)
next
  assume "ToolArgs.query x = ToolArgs.query y \<and> ToolArgs.depth x = ToolArgs.depth y
       \<and> ToolArgs.breadth x = ToolArgs.breadth y
       \<and> (case ToolArgs.existingLearnings x of None \<Rightarrow> [] | Some ls \<Rightarrow> ls)
           = (case ToolArgs.existingLearnings y of None \<Rightarrow> [] | Some ls \<Rightarrow> ls)"
  then have "keyObject x = keyObject y"
    by (simp add: keyObject_eq_iff)
  then show "cacheKey H x = cacheKey H y"
    by (simp add: cacheKey_def)
next
  assume "ToolArgs.query x \<noteq> ToolArgs.query y \<or> ToolArgs.depth x \<noteq> ToolArgs.depth y
       \<or> ToolArgs.breadth x \<noteq> ToolArgs.breadth y
       \<or> (case ToolArgs.existingLearnings x of None \<Rightarrow> [] | Some ls \<Rightarrow> ls)
           \<noteq> (case ToolArgs.existingLearnings y of None \<Rightarrow> [] | Some ls \<Rightarrow> ls)"
  then have ne: "keyObject x \<noteq> keyObject y"
    by (auto simp: keyObject_eq_iff)
  obtain s where s: "JSON_stringify (keyObject x) = Inr s"
    by (cases "keyObject x") (simp add: JSON_stringify_def)
  obtain t where t: "JSON_stringify (keyObject y) = Inr t"
    by (cases "keyObject y") (simp add: JSON_stringify_def)
  have "s \<noteq> t"
    using ne s t JSON_stringify_inj[of "keyObject x" "keyObject y"] by auto
  moreover have "cacheKey H x = H s" "cacheKey H y = H t"
    by (simp_all add: cacheKey_def hashKey_def s t)
  ultimately show "\<exists>s t. JSON_stringify (keyObject x) = Inr s \<and> JSON_stringify (keyObject y) = Inr t
           \<and> s \<noteq> t \<and> cacheKey H x = H s \<and> cacheKey H y = H t
           \<and> (H s \<noteq> H t \<longrightarrow> cacheKey H x \<noteq> cacheKey H y)"
    using s t by auto
qed


lemma cacheKey_example_text:
  "cacheKey (\<lambda>t. t) ((exampleArgs (lit ''q''))\<lparr>ToolArgs.depth := Some 3, ToolArgs.breadth := Some 2,
        ToolArgs.existingLearnings := Some [lit ''a'', lit ''b'']\<rparr>)
     = [123, 34] @ lit ''query'' @ [34, 58, 34] @ lit ''q'' @ [34, 44, 34] @ lit ''depth''
       @ [34, 58] @ lit ''3'' @ [44, 34] @ lit ''breadth'' @ [34, 58] @ lit ''2'' @ [44, 34]
       @ lit ''existingLearnings'' @ [34, 58, 91, 34] @ lit ''a'' @ [34, 44, 34] @ lit ''b''
       @ [34, 93, 125]"
proof -
  have q: "quoteUnits (lit ''q'') = lit ''q''" "quoteUnits (lit ''a'') = lit ''a''"
    "quoteUnits (lit ''b'') = lit ''b''"
    by (simp_all add: lit_def quoteUnit_def isLeadSurrogate_def isTrailSurrogate_def)
  have n: "numberToString 3 = lit ''3''" "numberToString 2 = lit ''2''"
    by (simp_all add: numberToString_def natToString.simps[of 3] natToString.simps[of 2] lit_def)
  have names: "quoteUnits (lit ''depth'') = lit ''depth''" "quoteUnits (lit ''breadth'') = lit ''breadth''"
    "quoteUnits (lit ''existingLearnings'') = lit ''existingLearnings''"
    using quoteUnits_names by (simp_all add: lit_def del: quoteUnits.simps)
  show ?thesis
    by (simp add: cacheKey_def hashKey_def keyObject_def JSON_stringify_def QuoteJSONString_def
        numberProperty_def exampleArgs_def q n names quoteUnits_names(4) del: quoteUnits.simps)
qed

theorem cache_key_of_fields_witness:
  "inputSchema [(lit ''query'', JStr (lit ''q'')), (lit ''depth'', JNum 3)]
     = inputSchema [(lit ''depth'', JNum 3), (lit ''query'', JStr (lit ''q''))]
   \<and> inputSchema [(lit ''query'', JStr (lit ''q'')), (lit ''depth'', JNum 3)]
     = Some ((exampleArgs (lit ''q''))\<lparr>ToolArgs.depth := Some 3\<rparr>)
   \<and> cacheKey (\<lambda>t. t) (exampleArgs (lit ''q'')) \<noteq> cacheKey (\<lambda>t. t) (exampleArgs (lit ''r''))
   \<and> cacheKey (\<lambda>t. t) ((exampleArgs (lit ''q''))\<lparr>ToolArgs.depth := Some 3\<rparr>)
       \<noteq> cacheKey (\<lambda>t. t) ((exampleArgs (lit ''q''))\<lparr>ToolArgs.depth := Some 4\<rparr>)
   \<and> cacheKey (\<lambda>t. t) ((exampleArgs (lit ''q''))\<lparr>ToolArgs.depth := Some 2\<rparr>)
       \<noteq> cacheKey (\<lambda>t. t) (exampleArgs (lit ''q''))
   \<and> cacheKey (\<lambda>t. t) ((exampleArgs (lit ''q''))\<lparr>ToolArgs.breadth := Some 3\<rparr>)
       \<noteq> cacheKey (\<lambda>t. t) ((exampleArgs (lit ''q''))\<lparr>ToolArgs.breadth := Some 4\<rparr>)
   \<and> cacheKey (\<lambda>t. t) ((exampleArgs (lit ''q''))\<lparr>ToolArgs.depth := Some 3\<rparr>)
       \<noteq> cacheKey (\<lambda>t. t) ((exampleArgs (lit ''q''))\<lparr>ToolArgs.breadth := Some 3\<rparr>)
   \<and> cacheKey (\<lambda>t. t) ((exampleArgs (lit ''q''))\<lparr>ToolArgs.existingLearnings := Some [lit ''a'']\<rparr>)
       \<noteq> cacheKey (\<lambda>t. t) ((exampleArgs (lit ''q''))\<lparr>ToolArgs.existingLearnings := Some [lit ''b'']\<rparr>)
   \<and> cacheKey (\<lambda>t. t) ((exampleArgs (lit ''q''))\<lparr>ToolArgs.existingLearnings := Some [lit ''a'']\<rparr>)
       \<noteq> cacheKey (\<lambda>t. t) (exampleArgs (lit ''q''))
   \<and> cacheKey (\<lambda>t. t) ((exampleArgs (lit ''q''))\<lparr>ToolArgs.goal := Some (lit ''g'')\<rparr>)
       = cacheKey (\<lambda>t. t) (exampleArgs (lit ''q''))"
proof -
  let ?a = "[(lit ''query'', JStr (lit ''q'')), (lit ''depth'', JNum 3)]"
  let ?b = "[(lit ''depth'', JNum 3), (lit ''query'', JStr (lit ''q''))]"
  let ?q = "exampleArgs (lit ''q'')"
  let ?H = "\<lambda>t::jsstring. t"
  have perm: "distinct (map fst ?a) \<and> distinct (map fst ?b) \<and> set ?a = set ?b"
    by (auto simp: lit_def)
  have parsed: "inputSchema ?a = Some (?q\<lparr>ToolArgs.depth := Some 3\<rparr>)"
    by (simp add: inputSchema_def z_string_min1_def z_optional_def z_number_1_5_def
        exampleArgs_def lit_def)
  have differ: "cacheKey ?H x \<noteq> cacheKey ?H y"
    if "ToolArgs.query x \<noteq> ToolArgs.query y \<or> ToolArgs.depth x \<noteq> ToolArgs.depth y
       \<or> ToolArgs.breadth x \<noteq> ToolArgs.breadth y
       \<or> (case ToolArgs.existingLearnings x of None \<Rightarrow> [] | Some ls \<Rightarrow> ls)
           \<noteq> (case ToolArgs.existingLearnings y of None \<Rightarrow> [] | Some ls \<Rightarrow> ls)" for x y
    using cache_key_of_fields[of ?a ?b ?H x y] that by auto
  have same: "cacheKey ?H x = cacheKey ?H y"
    if "ToolArgs.query x = ToolArgs.query y \<and> ToolArgs.depth x = ToolArgs.depth y
       \<and> ToolArgs.breadth x = ToolArgs.breadth y
       \<and> (case ToolArgs.existingLearnings x of None \<Rightarrow> [] | Some ls \<Rightarrow> ls)
           = (case ToolArgs.existingLearnings y of None \<Rightarrow> [] | Some ls \<Rightarrow> ls)" for x y
    using cache_key_of_fields[of ?a ?b ?H x y] that by blast
  have 1: "inputSchema ?a = inputSchema ?b"
    using cache_key_of_fields[of ?a ?b ?H ?q ?q] perm by blast
  have 2: "cacheKey ?H ?q \<noteq> cacheKey ?H (exampleArgs (lit ''r''))"
    by (rule differ) (simp add: exampleArgs_def lit_def)
  have 3: "cacheKey ?H (?q\<lparr>ToolArgs.depth := Some 3\<rparr>) \<noteq> cacheKey ?H (?q\<lparr>ToolArgs.depth := Some 4\<rparr>)"
    by (rule differ) simp
  have 4: "cacheKey ?H (?q\<lparr>ToolArgs.depth := Some 2\<rparr>) \<noteq> cacheKey ?H ?q"
    by (rule differ) (simp add: exampleArgs_def)
  have 5: "cacheKey ?H (?q\<lparr>ToolArgs.breadth := Some 3\<rparr>) \<noteq> cacheKey ?H (?q\<lparr>ToolArgs.breadth := Some 4\<rparr>)"
    by (rule differ) simp
  have 6: "cacheKey ?H (?q\<lparr>ToolArgs.depth := Some 3\<rparr>) \<noteq> cacheKey ?H (?q\<lparr>ToolArgs.breadth := Some 3\<rparr>)"
    by (rule differ) (simp add: exampleArgs_def)
  have 7: "cacheKey ?H (?q\<lparr>ToolArgs.existingLearnings := Some [lit ''a'']\<rparr>)
       \<noteq> cacheKey ?H (?q\<lparr>ToolArgs.existingLearnings := Some [lit ''b'']\<rparr>)"
    by (rule differ) (simp add: lit_def)
  have 8: "cacheKey ?H (?q\<lparr>ToolArgs.existingLearnings := Some [lit ''a'']\<rparr>) \<noteq> cacheKey ?H ?q"
    by (rule differ) (simp add: exampleArgs_def)
  have 9: "cacheKey ?H (?q\<lparr>ToolArgs.goal := Some (lit ''g'')\<rparr>) = cacheKey ?H ?q"
    by (rule same) simp
  show ?thesis
    using 1 parsed 2 3 4 5 6 7 8 9 by (intro conjI)
qed

subsection \<open>Repeated calls\<close>

lemma numberedKey_inj: "numberedKey i = numberedKey j \<Longrightarrow> i = j"
proof -
  assume "numberedKey i = numberedKey j"
  then have "keyObject (exampleArgs (natToString i)) = keyObject (exampleArgs (natToString j))"
    unfolding numberedKey_def by (rule cacheKey_id_inj)
  then have "natToString i = natToString j"
    by (simp add: keyObject_def exampleArgs_def)
  then show ?thesis by (rule natToString_inj)
qed

lemma numbered_ok:
  "research (exampleWorld 0 0 (lit ''report'')) (researchOptions a) = Inr (exampleResult (lit ''report''))"
  by (simp add: exampleWorld_def)

lemma numbered_fill:
  "n \<le> 50 \<Longrightarrow>
   map fst (cache (runCalls env0 (\<lambda>t. t) (map numberedCall [0..<n]) initialState))
     = rev (map numberedKey [0..<n])
   \<and> length (researchCalls (runCalls env0 (\<lambda>t. t) (map numberedCall [0..<n]) initialState)) = n"
proof (induction n)
  case 0
  show ?case by (simp add: initialState_def)
next
  case (Suc n)
  let ?s = "runCalls env0 (\<lambda>t. t) (map numberedCall [0..<n]) initialState"
  from Suc have keys: "map fst (cache ?s) = rev (map numberedKey [0..<n])"
    and calls: "length (researchCalls ?s) = n"
    by simp_all
  have len: "length (cache ?s) = n"
    using arg_cong[OF keys, of length] by simp
  have absent: "cacheKey (\<lambda>t. t) (exampleArgs (natToString n)) \<notin> set (map fst (cache ?s))"
    using numberedKey_inj[of n] by (auto simp: keys numberedKey_def[symmetric])
  have step: "runCalls env0 (\<lambda>t. t) (map numberedCall [0..<Suc n]) initialState
      = snd (deepResearch_run env0 (\<lambda>t. t) (exampleWorld 0 0 (lit ''report''))
          (exampleArgs (natToString n)) ?s)"
    by (simp add: runCalls_append numberedCall_def)
  show ?case
    unfolding step
    using fresh_call[OF absent numbered_ok, of env0] Suc.prems len calls
    by (simp add: keys cacheMax_def numberedKey_def)
qed

text \<open>
  C1. The claim: a call whose inputs equal those of an earlier successful call, made
  within the TTL window, is served from the cache without a pipeline invocation. The
  cache holds 50 entries: after the call numbered 0, fifty calls with other queries
  push its entry out, and the same call again, at the same clock reading, invokes the
  pipeline.
\<close>

theorem capacity_eviction_counterexample:
  "MCP_CACHE_TTL_MS env0 = Num 600000
   \<and> numberedCall 0 = (exampleWorld 0 0 (lit ''report''), exampleArgs (natToString 0))
   \<and> research (exampleWorld 0 0 (lit ''report'')) (researchOptions (exampleArgs (natToString 0)))
       = Inr (exampleResult (lit ''report''))
   \<and> int (now_get (exampleWorld 0 0 (lit ''report'')))
       - int (now_set (exampleWorld 0 0 (lit ''report''))) \<le> 600000
   \<and> length (researchCalls (runCalls env0 (\<lambda>t. t) (map numberedCall [0..<51]) initialState)) = 51
   \<and> researchCalls (snd (deepResearch_run env0 (\<lambda>t. t)
        (exampleWorld 0 0 (lit ''report'')) (exampleArgs (natToString 0))
        (runCalls env0 (\<lambda>t. t) (map numberedCall [0..<51]) initialState)))
      = researchCalls (runCalls env0 (\<lambda>t. t) (map numberedCall [0..<51]) initialState)
        @ [researchOptions (exampleArgs (natToString 0))]"
proof -
  let ?run = "\<lambda>n. runCalls env0 (\<lambda>t. t) (map numberedCall [0..<n]) initialState"
  have fill: "map fst (cache (?run 50)) = rev (map numberedKey [0..<50])"
    and calls50: "length (researchCalls (?run 50)) = 50"
    using numbered_fill[of 50] by simp_all
  have len: "length (cache (?run 50)) = 50"
    using arg_cong[OF fill, of length] by simp
  have absent50: "cacheKey (\<lambda>t. t) (exampleArgs (natToString 50)) \<notin> set (map fst (cache (?run 50)))"
    using numberedKey_inj[of 50] by (auto simp: fill numberedKey_def[symmetric])
  have "[0..<51] = [0..<50] @ [50]"
    using upt_Suc_append[of 0 50] by simp
  then have step: "?run 51 = snd (deepResearch_run env0 (\<lambda>t. t) (exampleWorld 0 0 (lit ''report''))
          (exampleArgs (natToString 50)) (?run 50))"
    by (simp add: runCalls_append numberedCall_def)
  have keys51: "map fst (cache (?run 51)) = numberedKey 50 # rev (map numberedKey [1..<50])"
  proof -
    have "butlast (rev (map numberedKey [0..<50])) = rev (map numberedKey [1..<50])"
      by (simp add: butlast_rev map_tl[symmetric] del: upt_Suc)
    then show ?thesis
      unfolding step
      using fresh_call(1)[OF absent50 numbered_ok, of env0] len
      by (simp add: fill cacheMax_def numberedKey_def)
  qed
  have calls51: "length (researchCalls (?run 51)) = 51"
    unfolding step using fresh_call(2)[OF absent50 numbered_ok, of env0] calls50 by simp
  have absent0: "cacheKey (\<lambda>t. t) (exampleArgs (natToString 0)) \<notin> set (map fst (cache (?run 51)))"
    by (auto simp: keys51 numberedKey_def[symmetric] dest: numberedKey_inj)
  have clock: "int (now_get (exampleWorld 0 0 (lit ''report'')))
       - int (now_set (exampleWorld 0 0 (lit ''report''))) \<le> 600000"
    by (simp add: exampleWorld_def)
  show ?thesis
    using fresh_call(2)[OF absent0 numbered_ok, of env0] calls51 MCP_CACHE_TTL_MS_default
      numbered_ok clock
    by (simp add: numberedCall_def)
qed

text \<open>
  C1, amended. Let a call miss the cache and its pipeline invocation succeed, and let
  fewer than 50 distinct other cache keys be requested between it and the next call
  with the same inputs. If that next call looks the cache up no later than the TTL after
  the first call's cache write, it returns the first call's result and the pipeline is
  not invoked; if it comes later, the lookup misses and the pipeline is invoked again.
\<close>

theorem repeated_call_within_ttl:
  assumes ttl: "MCP_CACHE_TTL_MS env = Num ttl"
    and miss: "fst (lru_get (MCP_CACHE_TTL_MS env) (now_get w1) (cacheKey H a1) (cache s0)) = None"
    and ok: "research w1 (researchOptions a1) = Inr result"
    and first: "deepResearch_run env H w1 a1 s0 = (r1, s1)"
    and others: "\<forall>(w, a) \<in> set between. cacheKey H a \<noteq> cacheKey H a1"
    and few: "card ((\<lambda>(w, a). cacheKey H a) ` set between) < 50"
    and same: "keyObject a2 = keyObject a1"
  shows "(int (now_get w2) - int (now_set w1) \<le> ttl \<longrightarrow>
            fst (deepResearch_run env H w2 a2 (runCalls env H between s1)) = r1
            \<and> researchCalls (snd (deepResearch_run env H w2 a2 (runCalls env H between s1)))
                = researchCalls (runCalls env H between s1))
       \<and> (int (now_get w2) - int (now_set w1) > ttl \<longrightarrow>
            researchCalls (snd (deepResearch_run env H w2 a2 (runCalls env H between s1)))
                = researchCalls (runCalls env H between s1) @ [researchOptions a2])"
proof -
  let ?k = "cacheKey H a1"
  let ?s2 = "runCalls env H between s1"
  have r1: "r1 = fst (deepResearch_run env H w1 a1 s0)" and s1: "s1 = snd (deepResearch_run env H w1 a1 s0)"
    using first by simp_all
  obtain rest where "cache s1 = (?k, r1, now_set w1) # rest"
    using stored_by_successful_call[OF miss ok] r1 s1 by auto
  then have "keptBehind ?k (r1, now_set w1) {} (cache s1)"
    unfolding keptBehind_def by (intro exI[of _ "[]"] exI[of _ rest]) simp
  then have "keptBehind ?k (r1, now_set w1) ({} \<union> (\<lambda>(w, a). cacheKey H a) ` set between) (cache ?s2)"
    using others few by (intro keptBehind_runCalls) (simp_all add: cacheMax_def)
  then have stored: "map_of (cache ?s2) ?k = Some (r1, now_set w1)"
    by (rule keptBehind_map_of)
  have k2: "cacheKey H a2 = ?k"
    using same by (simp add: cacheKey_def)
  show ?thesis
  proof (intro conjI impI)
    assume "int (now_get w2) - int (now_set w1) \<le> ttl"
    then have "\<not> isStale (MCP_CACHE_TTL_MS env) (now_get w2) (now_set w1)"
      by (simp add: isStale_def ttl)
    then have hit: "fst (lru_get (MCP_CACHE_TTL_MS env) (now_get w2) (cacheKey H a2) (cache ?s2)) = Some r1"
      using stored by (simp add: k2 lru_get_def)
    show "fst (deepResearch_run env H w2 a2 ?s2) = r1"
      by (simp add: run_hit_researchCalls[OF hit])
    show "researchCalls (snd (deepResearch_run env H w2 a2 ?s2)) = researchCalls ?s2"
      by (simp add: run_hit_researchCalls[OF hit])
  next
    assume "int (now_get w2) - int (now_set w1) > ttl"
    then have "isStale (MCP_CACHE_TTL_MS env) (now_get w2) (now_set w1)"
      by (simp add: isStale_def ttl)
    then have "fst (lru_get (MCP_CACHE_TTL_MS env) (now_get w2) (cacheKey H a2) (cache ?s2)) = None"
      using stored by (simp add: k2 lru_get_def)
    then show "researchCalls (snd (deepResearch_run env H w2 a2 ?s2))
        = researchCalls ?s2 @ [researchOptions a2]"
      by (rule run_miss_researchCalls)
  qed
qed

theorem repeated_call_within_ttl_witness:
  "MCP_CACHE_TTL_MS env0 = Num 600000
   \<and> fst (deepResearch_run env0 (\<lambda>t. t) (exampleWorld 600010 600020 (lit ''new report''))
        (exampleArgs (lit ''q''))
        (runCalls env0 (\<lambda>t. t) [(exampleWorld 20 30 (lit ''other report''), exampleArgs (lit ''other''))]
           (snd (deepResearch_run env0 (\<lambda>t. t) (exampleWorld 0 10 (lit ''report''))
              (exampleArgs (lit ''q'')) initialState))))
      = fst (deepResearch_run env0 (\<lambda>t. t) (exampleWorld 0 10 (lit ''report''))
              (exampleArgs (lit ''q'')) initialState)
   \<and> length (researchCalls (snd (deepResearch_run env0 (\<lambda>t. t) (exampleWorld 600010 600020 (lit ''new report''))
        (exampleArgs (lit ''q''))
        (runCalls env0 (\<lambda>t. t) [(exampleWorld 20 30 (lit ''other report''), exampleArgs (lit ''other''))]
           (snd (deepResearch_run env0 (\<lambda>t. t) (exampleWorld 0 10 (lit ''report''))
              (exampleArgs (lit ''q'')) initialState)))))) = 2
   \<and> length (researchCalls (snd (deepResearch_run env0 (\<lambda>t. t) (exampleWorld 600011 600020 (lit ''new report''))
        (exampleArgs (lit ''q''))
        (runCalls env0 (\<lambda>t. t) [(exampleWorld 20 30 (lit ''other report''), exampleArgs (lit ''other''))]
           (snd (deepResearch_run env0 (\<lambda>t. t) (exampleWorld 0 10 (lit ''report''))
              (exampleArgs (lit ''q'')) initialState)))))) = 3"
proof -
  let ?H = "\<lambda>t::jsstring. t"
  let ?w1 = "exampleWorld 0 10 (lit ''report'')"
  let ?a1 = "exampleArgs (lit ''q'')"
  let ?between = "[(exampleWorld 20 30 (lit ''other report''), exampleArgs (lit ''other''))]"
  let ?s1 = "snd (deepResearch_run env0 ?H ?w1 ?a1 initialState)"
  let ?s2 = "runCalls env0 ?H ?between ?s1"
  have ttl: "MCP_CACHE_TTL_MS env0 = Num 600000"
    by (rule MCP_CACHE_TTL_MS_default)
  have miss: "fst (lru_get (MCP_CACHE_TTL_MS env0) (now_get ?w1) (cacheKey ?H ?a1) (cache initialState)) = None"
    by (simp add: lru_get_def initialState_def)
  have ok: "research ?w1 (researchOptions ?a1) = Inr (exampleResult (lit ''report''))"
    by (simp add: exampleWorld_def)
  have "keyObject (exampleArgs (lit ''other'')) \<noteq> keyObject ?a1"
    by (simp add: keyObject_def exampleArgs_def)
  then have ne: "cacheKey ?H (exampleArgs (lit ''other'')) \<noteq> cacheKey ?H ?a1"
    using cacheKey_id_inj by blast
  then have others: "\<forall>(w, a) \<in> set ?between. cacheKey ?H a \<noteq> cacheKey ?H ?a1"
    by simp
  have few: "card ((\<lambda>(w, a). cacheKey ?H a) ` set ?between) < 50"
    by simp
  have empty: "cacheKey ?H ?a1 \<notin> set (map fst (cache initialState))"
    by (simp add: initialState_def)
  have calls1: "researchCalls ?s1 = [researchOptions ?a1]"
    using fresh_call(2)[OF empty ok] by (simp add: initialState_def)
  have "map fst (cache ?s1) = [cacheKey ?H ?a1]"
    using fresh_call(1)[OF empty ok, of env0] by (simp add: initialState_def cacheMax_def)
  then have "cacheKey ?H (exampleArgs (lit ''other'')) \<notin> set (map fst (cache ?s1))"
    using ne by simp
  then have miss2: "fst (lru_get (MCP_CACHE_TTL_MS env0) (now_get (exampleWorld 20 30 (lit ''other report'')))
      (cacheKey ?H (exampleArgs (lit ''other''))) (cache ?s1)) = None"
    by (rule absent_miss)
  have calls2: "length (researchCalls ?s2) = 2"
    using run_miss_researchCalls[OF miss2] calls1 by simp
  have now: "now_set ?w1 = 10" "now_get (exampleWorld 600010 600020 (lit ''new report'')) = 600010"
    "now_get (exampleWorld 600011 600020 (lit ''new report'')) = 600011"
    by (simp_all add: exampleWorld_def)
  note served = repeated_call_within_ttl[OF ttl miss ok surjective_pairing others few refl]
  have a: "fst (deepResearch_run env0 ?H (exampleWorld 600010 600020 (lit ''new report'')) ?a1 ?s2)
      = fst (deepResearch_run env0 ?H ?w1 ?a1 initialState)"
    and b: "length (researchCalls (snd (deepResearch_run env0 ?H
      (exampleWorld 600010 600020 (lit ''new report'')) ?a1 ?s2))) = 2"
    using served[of "exampleWorld 600010 600020 (lit ''new report'')"] now calls2 by simp_all
  have c: "length (researchCalls (snd (deepResearch_run env0 ?H
      (exampleWorld 600011 600020 (lit ''new report'')) ?a1 ?s2))) = 3"
    using served[of "exampleWorld 600011 600020 (lit ''new report'')"] now calls2 by simp
  show ?thesis
    using ttl a b c by simp
qed

end
